theory Spec2Isabelle
  imports Complex_Main
begin

section \<open>Puzzle verification (captcha\_generators/puzzle\_captcha.py)\<close>

text \<open>
  Coordinates and tolerances are Python integers, hence \<open>int\<close>.
  \<^verbatim>\<open>
  def verify_sliding(self, submitted_x, correct_x, tolerance=10):
      return abs(submitted_x - correct_x) <= tolerance
  \<close>
\<close>

definition verify_sliding :: "int \<Rightarrow> int \<Rightarrow> int \<Rightarrow> bool" where
  "verify_sliding submitted_x correct_x tolerance =
     (\<bar>submitted_x - correct_x\<bar> \<le> tolerance)"

text \<open>
  A position is the JSON object \<open>{id, x, y}\<close>: the shape of a submitted drag entry and
  of an entry of the generator's \<open>positions\<close> list. A stored truth entry is the session
  object \<open>{id, correct_x, correct_y}\<close> written by the drag route.
\<close>

record position =
  pos_id :: int
  pos_x :: int
  pos_y :: int

record correct_position =
  cor_id :: int
  cor_x :: int
  cor_y :: int

text \<open>
  The dict comprehension
  \<^verbatim>\<open>correct_map = {p['id']: (p['correct_x'], p['correct_y']) for p in correct_positions}\<close>
  inserts from left to right, so a later entry with the same id replaces an earlier one.
\<close>

definition correct_map_of :: "correct_position list \<Rightarrow> (int \<rightharpoonup> int \<times> int)" where
  "correct_map_of correct_positions =
     foldl (\<lambda>m p. m(cor_id p \<mapsto> (cor_x p, cor_y p))) Map.empty correct_positions"

text \<open>
  The body of the \<open>for submitted in submitted_positions\<close> loop: the first entry
  that fails returns \<open>False\<close>, and the loop falling through returns \<open>True\<close>.
\<close>

fun verify_drag_loop :: "(int \<rightharpoonup> int \<times> int) \<Rightarrow> int \<Rightarrow> position list \<Rightarrow> bool" where
  "verify_drag_loop correct_map tolerance [] = True"
| "verify_drag_loop correct_map tolerance (submitted # rest) =
     (case correct_map (pos_id submitted) of
        None \<Rightarrow> False
      | Some (correct_x, correct_y) \<Rightarrow>
          if \<bar>pos_x submitted - correct_x\<bar> > tolerance \<or> \<bar>pos_y submitted - correct_y\<bar> > tolerance
          then False
          else verify_drag_loop correct_map tolerance rest)"

definition verify_drag :: "position list \<Rightarrow> correct_position list \<Rightarrow> int \<Rightarrow> bool" where
  "verify_drag submitted_positions correct_positions tolerance =
     (if length submitted_positions \<noteq> length correct_positions then False
      else verify_drag_loop (correct_map_of correct_positions) tolerance submitted_positions)"

section \<open>Grid verification (app.py, verify\_image\_captcha)\<close>

text \<open>
  The route answers with one of three JSON bodies; they are the three outcomes:
  \<^item> \<open>Correct\<close>: \<open>{'success': True, 'message': 'Correct! All images selected correctly.'}\<close>
  \<^item> \<open>InsufficientSelection required\<close>: \<open>{'success': False, 'message': 'Please select {required} images.'}\<close>
  \<^item> \<open>Incorrect\<close>: \<open>{'success': False, 'message': 'Wrong selection. Try again.'}\<close>
  Python's \<open>sorted\<close> on a list of integers is \<open>sort\<close>.
\<close>

datatype verification_outcome = Correct | InsufficientSelection int | Incorrect

definition verify_image_captcha :: "int list \<Rightarrow> int list \<Rightarrow> int \<Rightarrow> verification_outcome" where
  "verify_image_captcha selected_indices correct_indices required =
     (if sort selected_indices = sort correct_indices then Correct
      else if int (length selected_indices) < required then InsufficientSelection required
      else Incorrect)"

section \<open>Token store (captcha\_generators/cloudflare\_captcha.py)\<close>

text \<open>
  \<open>time.time()\<close> yields seconds as a double; the model reads the clock as the
  \<open>real\<close> that the double denotes, handed in by the caller, one argument per call of
  \<open>time.time()\<close> in the source. Comparing two doubles is comparing the reals they
  denote. Adding them is not adding the reals: the sum is rounded to a double. The
  addition of the interpreter is therefore an argument, \<open>float_add\<close>, of every
  function that adds clock readings. Tokens and challenge ids are hex strings.
\<close>

record token_data =
  challenge_id :: string
  created_at :: real
  expires_at :: real

record cloudflare_captcha =
  valid_tokens :: "string \<rightharpoonup> token_data"
  token_expiry :: real

definition init_cloudflare :: cloudflare_captcha where
  "init_cloudflare = \<lparr>valid_tokens = Map.empty, token_expiry = 300\<rparr>"

text \<open>
  \<open>generate_token\<close>: the token is the SHA-256 hex digest of the challenge id, a clock
  reading and a random number. The digest is computed outside the model and passed in
  as \<open>token\<close>; \<open>t_created\<close> and \<open>t_expires\<close> are the two later clock readings.
  The stored expiry is the double \<open>time.time() + self.token_expiry\<close>.
\<close>

definition generate_token ::
  "(real \<Rightarrow> real \<Rightarrow> real) \<Rightarrow> cloudflare_captcha \<Rightarrow> string \<Rightarrow> string \<Rightarrow> real \<Rightarrow> real
     \<Rightarrow> string \<times> cloudflare_captcha" where
  "generate_token float_add self cid token t_created t_expires =
     (token,
      self\<lparr>valid_tokens := (valid_tokens self)(token \<mapsto>
         \<lparr>challenge_id = cid, created_at = t_created,
          expires_at = float_add t_expires (token_expiry self)\<rparr>)\<rparr>)"

text \<open>The sweep at the head of \<open>verify_token\<close> keeps the entries with \<open>expires_at > current_time\<close>.\<close>

definition clean_expired :: "(string \<rightharpoonup> token_data) \<Rightarrow> real \<Rightarrow> (string \<rightharpoonup> token_data)" where
  "clean_expired tokens current_time =
     (\<lambda>k. case tokens k of
            None \<Rightarrow> None
          | Some v \<Rightarrow> if expires_at v > current_time then Some v else None)"

text \<open>
  \<open>verify_token\<close> returns the \<open>success\<close> flag of its JSON answer (the message is
  \<open>Verification successful\<close> or \<open>Invalid or expired token\<close> accordingly) and the store
  after the sweep and the removal.
\<close>

definition verify_token :: "cloudflare_captcha \<Rightarrow> string \<Rightarrow> real \<Rightarrow> bool \<times> cloudflare_captcha" where
  "verify_token self token current_time =
     (let swept = clean_expired (valid_tokens self) current_time in
      if token \<in> dom swept
      then (True, self\<lparr>valid_tokens := swept(token := None)\<rparr>)
      else (False, self\<lparr>valid_tokens := swept\<rparr>))"

datatype completion_error = InteractionRequired

record completion =
  token :: string
  expires_in :: real

text \<open>
  \<open>complete_challenge\<close>: \<open>Inl InteractionRequired\<close> is the answer
  \<open>{'success': False, 'error': 'Human interaction required'}\<close>.
\<close>

definition complete_challenge ::
  "(real \<Rightarrow> real \<Rightarrow> real) \<Rightarrow> cloudflare_captcha \<Rightarrow> string \<Rightarrow> bool \<Rightarrow> string \<Rightarrow> real \<Rightarrow> real
     \<Rightarrow> (completion_error + completion) \<times> cloudflare_captcha" where
  "complete_challenge float_add self cid user_interaction tok t_created t_expires =
     (if \<not> user_interaction then (Inl InteractionRequired, self)
      else (let (t, self') = generate_token float_add self cid tok t_created t_expires
            in (Inr \<lparr>token = t, expires_in = token_expiry self'\<rparr>, self')))"

text \<open>
  The operations that touch the token store, for runs of several requests.
\<close>

datatype store_op =
    Verify string real
  | Complete string bool string real real

fun store_step :: "(real \<Rightarrow> real \<Rightarrow> real) \<Rightarrow> cloudflare_captcha \<Rightarrow> store_op \<Rightarrow> cloudflare_captcha" where
  "store_step float_add self (Verify tok now) = snd (verify_token self tok now)"
| "store_step float_add self (Complete cid ui tok t1 t2) =
     snd (complete_challenge float_add self cid ui tok t1 t2)"

definition mints :: "store_op \<Rightarrow> string \<Rightarrow> bool" where
  "mints op tok = (case op of Verify _ _ \<Rightarrow> False | Complete _ ui t _ _ \<Rightarrow> ui \<and> t = tok)"

text \<open>
  A request spares a token with a given expiry when it neither verifies nor mints that
  token and, if it is a verification (which sweeps the store), runs before the expiry.
\<close>

definition spares :: "store_op \<Rightarrow> string \<Rightarrow> real \<Rightarrow> bool" where
  "spares op tok expiry =
     (case op of
        Verify t now \<Rightarrow> t \<noteq> tok \<and> now < expiry
      | Complete _ ui t _ _ \<Rightarrow> \<not> mints op tok)"

section \<open>Image cache (captcha\_generators/image\_cache.py)\<close>

text \<open>
  The cache is a directory tree: one directory per sanitized category name under the
  cache root, one file per image. A file is its name, its modification time
  (\<open>st_mtime\<close>, seconds as a float, here \<open>real\<close>) and what decoding it yields:
  \<open>None\<close> when \<open>Image.open\<close> or \<open>convert\<close> raises on it. An image is known by
  where it came from and by its dimensions; \<open>resize\<close> sets the dimensions.
  A directory is the list of its files in the order the operating system lists them; the
  model lists them in order of creation. A directory that was never written is the empty
  list, so the \<open>mkdir(parents=True, exist_ok=True)\<close> of \<open>_get_category_dir\<close>
  changes nothing.
\<close>

record image =
  source :: string
  dims :: "int \<times> int"

record file_entry =
  fname :: string
  mtime :: real
  content :: "image option"

type_synonym directory = "file_entry list"

record metadata_entry =
  md_count :: int
  last_updated :: "real option"

text \<open>
  The fields of \<open>ImageCache\<close>: \<open>dirs\<close> is the state of the disk below
  \<open>cache_dir\<close> (indexed by directory name), \<open>categories\<close> is
  \<open>metadata['categories']\<close>.
\<close>

record image_cache =
  dirs :: "string \<Rightarrow> directory"
  max_images_per_category :: int
  categories :: "string \<rightharpoonup> metadata_entry"

text \<open>
  What the interpreter and the operating system decide: \<open>str.isalnum\<close> (the Unicode
  table of the interpreter), \<open>random.sample\<close>, whether \<open>image.save\<close> to a file
  name succeeds, and whether \<open>unlink\<close> of a file name succeeds.
\<close>

record env =
  isalnum :: "char \<Rightarrow> bool"
  random_sample :: "file_entry list \<Rightarrow> nat \<Rightarrow> file_entry list"
  save_ok :: "string \<Rightarrow> bool"
  unlink_ok :: "string \<Rightarrow> bool"

text \<open>
  \<^verbatim>\<open>safe_category = "".join(c if c.isalnum() or c in ('-', '_') else '_' for c in category)\<close>
\<close>

definition safe_category :: "env \<Rightarrow> string \<Rightarrow> string" where
  "safe_category e category =
     map (\<lambda>c. if isalnum e c \<or> c = CHR ''-'' \<or> c = CHR ''_'' then c else CHR ''_'') category"

definition endswith :: "string \<Rightarrow> string \<Rightarrow> bool" where
  "endswith s ext = (length ext \<le> length s \<and> drop (length s - length ext) s = ext)"

text \<open>\<^verbatim>\<open>list(category_dir.glob('*.jpg')) + list(category_dir.glob('*.png'))\<close>\<close>

definition glob_images :: "directory \<Rightarrow> file_entry list" where
  "glob_images d =
     filter (\<lambda>f. endswith (fname f) ''.jpg'') d @ filter (\<lambda>f. endswith (fname f) ''.png'') d"

definition get_cache_count :: "env \<Rightarrow> image_cache \<Rightarrow> string \<Rightarrow> int" where
  "get_cache_count e self category =
     int (length (glob_images (dirs self (safe_category e category))))"

definition has_enough_cached :: "env \<Rightarrow> image_cache \<Rightarrow> string \<Rightarrow> int \<Rightarrow> bool" where
  "has_enough_cached e self category min_count = (get_cache_count e self category \<ge> min_count)"

text \<open>
  \<open>file_path.unlink()\<close> inside \<open>try ... except: pass\<close>: a failing unlink leaves the
  directory as it is.
\<close>

definition unlink :: "env \<Rightarrow> string \<Rightarrow> directory \<Rightarrow> directory" where
  "unlink e name d = (if unlink_ok e name then filter (\<lambda>f. fname f \<noteq> name) d else d)"

fun unlink_each :: "env \<Rightarrow> file_entry list \<Rightarrow> directory \<Rightarrow> directory" where
  "unlink_each e [] d = d"
| "unlink_each e (f # fs) d = unlink_each e fs (unlink e (fname f) d)"

text \<open>
  \<open>_cleanup_category\<close>. \<open>list.sort\<close> is stable, as \<open>sort_key\<close> is. The
  slice \<open>image_files[:files_to_remove]\<close> is taken with \<open>files_to_remove > 0\<close>.
\<close>

definition cleanup_category :: "env \<Rightarrow> image_cache \<Rightarrow> string \<Rightarrow> image_cache" where
  "cleanup_category e self category =
     (let category_dir = safe_category e category;
          image_files = glob_images (dirs self category_dir)
      in if int (length image_files) > max_images_per_category self
         then
           (let sorted_files = sort_key mtime image_files;
                files_to_remove = int (length image_files) - max_images_per_category self
            in self\<lparr>dirs := (dirs self)(category_dir :=
                 unlink_each e (take (nat files_to_remove) sorted_files) (dirs self category_dir))\<rparr>)
         else self)"

text \<open>
  \<open>image.save(file_path, 'JPEG')\<close> at clock reading \<open>t\<close>: an existing file of that
  name is overwritten in place, a new one is added to the directory.
\<close>

definition write_file :: "string \<Rightarrow> real \<Rightarrow> image \<Rightarrow> directory \<Rightarrow> directory" where
  "write_file name t img d =
     (if list_ex (\<lambda>f. fname f = name) d
      then map (\<lambda>f. if fname f = name then f\<lparr>mtime := t, content := Some img\<rparr> else f) d
      else d @ [\<lparr>fname = name, mtime = t, content = Some img\<rparr>])"

text \<open>
  \<open>save_image\<close>. \<open>generated_id\<close> is the 12 hex digits the source derives from the
  clock and \<open>random.random()\<close> when no \<open>image_id\<close> is given. The result is the path
  of the file below the cache root, or \<open>None\<close> when \<open>image.save\<close> raised.
  \<open>_save_metadata\<close> only persists \<open>metadata\<close> and swallows its own failure.
\<close>

definition save_image ::
  "env \<Rightarrow> image_cache \<Rightarrow> image \<Rightarrow> string \<Rightarrow> string option \<Rightarrow> string \<Rightarrow> real
     \<Rightarrow> string option \<times> image_cache" where
  "save_image e self img category image_id generated_id now =
     (let category_dir = safe_category e category;
          iid = (case image_id of None \<Rightarrow> generated_id | Some i \<Rightarrow> i);
          filename = iid @ ''.jpg''
      in if \<not> save_ok e filename then (None, self)
         else
           (let self1 = self\<lparr>dirs := (dirs self)(category_dir :=
                           write_file filename now img (dirs self category_dir))\<rparr>;
                self2 = self1\<lparr>categories := (categories self1)(category \<mapsto>
                           \<lparr>md_count = get_cache_count e self1 category,
                            last_updated = Some now\<rparr>)\<rparr>;
                self3 = cleanup_category e self2 category
            in (Some (category_dir @ ''/'' @ filename), self3)))"

text \<open>
  The loop of \<open>get_cached_images\<close> over the sampled files: a file that decodes is
  converted, resized when a size is given, and appended; one that does not is unlinked.
\<close>

fun load_images ::
  "env \<Rightarrow> (int \<times> int) option \<Rightarrow> string \<Rightarrow> file_entry list \<Rightarrow> image list \<times> image_cache
     \<Rightarrow> image list \<times> image_cache" where
  "load_images e sz category_dir [] (images, self) = (images, self)"
| "load_images e sz category_dir (f # fs) (images, self) =
     (case content f of
        Some img \<Rightarrow>
          load_images e sz category_dir fs
            (images @ [case sz of None \<Rightarrow> img | Some s \<Rightarrow> img\<lparr>dims := s\<rparr>], self)
      | None \<Rightarrow>
          load_images e sz category_dir fs
            (images, self\<lparr>dirs := (dirs self)(category_dir :=
                        unlink e (fname f) (dirs self category_dir))\<rparr>))"

text \<open>
  \<open>get_cached_images\<close>; every caller in the repository passes a positive \<open>count\<close>.
\<close>

definition get_cached_images ::
  "env \<Rightarrow> image_cache \<Rightarrow> string \<Rightarrow> nat \<Rightarrow> (int \<times> int) option \<Rightarrow> image list \<times> image_cache" where
  "get_cached_images e self category count sz =
     (let category_dir = safe_category e category;
          image_files = glob_images (dirs self category_dir)
      in if image_files = [] then ([], self)
         else
           (let selected_files = random_sample e image_files (min count (length image_files))
            in load_images e sz category_dir selected_files ([], self)))"

text \<open>A run of \<open>save_image\<close> calls into one category: image, image id, clock reading.\<close>

record put =
  put_image :: image
  put_id :: string
  put_time :: real

fun save_all :: "env \<Rightarrow> image_cache \<Rightarrow> string \<Rightarrow> put list \<Rightarrow> image_cache" where
  "save_all e self category [] = self"
| "save_all e self category (p # ps) =
     save_all e (snd (save_image e self (put_image p) category (Some (put_id p)) [] (put_time p)))
       category ps"

definition stored :: "put \<Rightarrow> file_entry" where
  "stored p = \<lparr>fname = put_id p @ ''.jpg'', mtime = put_time p, content = Some (put_image p)\<rparr>"

section \<open>Image provider (captcha\_generators/unsplash\_client.py)\<close>

text \<open>
  The fields of \<open>UnsplashClient\<close> that the fetch functions read. \<open>not self.api_key\<close>
  holds for \<open>None\<close> and for the empty string.
\<close>

record unsplash_client =
  api_key :: "string option"
  use_cache :: bool
  cache_only_mode :: bool

definition no_api_key :: "unsplash_client \<Rightarrow> bool" where
  "no_api_key self = (case api_key self of None \<Rightarrow> True | Some k \<Rightarrow> k = [])"

text \<open>
  The remote source. A request either raises (network error, timeout, a body that is not
  JSON) or answers with a status code and a body. A photo of the body carries the URL the
  source picks (\<open>urls.small\<close>, else \<open>urls.regular\<close> or \<open>urls.thumb\<close>; \<open>None\<close>
  when neither is there), its id, what downloading and decoding that URL yields
  (\<open>None\<close> when \<open>_download_and_resize\<close> returns \<open>None\<close>), and the clock reading at
  which the cache writes it. Every request made is appended to a log of remote calls.
\<close>

datatype 'a http_result = Raised | Response nat 'a

record photo =
  photo_url :: "string option"
  photo_id :: string
  photo_body :: "image option"
  saved_at :: real

record remote =
  random_photo :: "string option \<Rightarrow> photo http_result"
  search_photos :: "string \<Rightarrow> nat \<Rightarrow> photo list http_result"

datatype remote_call = GetRandom "string option" | GetSearch string nat | GetImage string

definition download_and_resize :: "photo \<Rightarrow> int \<times> int \<Rightarrow> image option" where
  "download_and_resize p sz = map_option (\<lambda>img. img\<lparr>dims := sz\<rparr>) (photo_body p)"

text \<open>
  \<open>query\<close> as a truth value: \<open>None\<close> and the empty string are false. The request
  carries \<open>params['query']\<close> only for a true query, and
  \<open>category = query or 'random'\<close>.
\<close>

definition query_param :: "string option \<Rightarrow> string option" where
  "query_param query = (case query of None \<Rightarrow> None | Some q \<Rightarrow> if q = [] then None else Some q)"

definition query_category :: "string option \<Rightarrow> string" where
  "query_category query = (case query_param query of None \<Rightarrow> ''random'' | Some q \<Rightarrow> q)"

text \<open>
  \<open>get_random_image\<close>. The result is the image (or \<open>None\<close>), the remote calls made,
  and the cache afterwards. With \<open>use_cache\<close> off the cache is not read and
  \<open>cached_images\<close> stays empty.
\<close>

definition get_random_image ::
  "env \<Rightarrow> remote \<Rightarrow> unsplash_client \<Rightarrow> image_cache \<Rightarrow> string option \<Rightarrow> int \<times> int
     \<Rightarrow> image option \<times> remote_call list \<times> image_cache" where
  "get_random_image e r self cache query sz =
     (let category = query_category query;
          params = query_param query;
          (cached_images, cache1) =
             (if use_cache self then get_cached_images e cache category 1 (Some sz)
              else ([], cache))
      in case cached_images of
           img # _ \<Rightarrow> (Some img, [], cache1)
         | [] \<Rightarrow>
             if cache_only_mode self then (None, [], cache1)
             else if no_api_key self then (None, [], cache1)
             else
               (case random_photo r params of
                  Raised \<Rightarrow> (None, [GetRandom params], cache1)
                | Response status data \<Rightarrow>
                    if status = 200 then
                      (case photo_url data of
                         None \<Rightarrow> (None, [GetRandom params], cache1)
                       | Some image_url \<Rightarrow>
                           (case download_and_resize data sz of
                              None \<Rightarrow> (None, [GetRandom params, GetImage image_url], cache1)
                            | Some img \<Rightarrow>
                                (Some img, [GetRandom params, GetImage image_url],
                                 if use_cache self
                                 then snd (save_image e cache1 img category (Some (photo_id data)) []
                                            (saved_at data))
                                 else cache1)))
                    else (None, [GetRandom params], cache1)))"

text \<open>
  The loop of \<open>get_images_by_query\<close> over the search results: images downloaded so
  far, remote calls so far, cache so far.
\<close>

fun fetch_results ::
  "env \<Rightarrow> unsplash_client \<Rightarrow> string \<Rightarrow> int \<times> int \<Rightarrow> photo list
     \<Rightarrow> image list \<times> remote_call list \<times> image_cache
     \<Rightarrow> image list \<times> remote_call list \<times> image_cache" where
  "fetch_results e self category sz [] acc = acc"
| "fetch_results e self category sz (p # results) (images, calls, cache) =
     (case photo_url p of
        None \<Rightarrow> fetch_results e self category sz results (images, calls, cache)
      | Some image_url \<Rightarrow>
          (case download_and_resize p sz of
             None \<Rightarrow>
               fetch_results e self category sz results (images, calls @ [GetImage image_url], cache)
           | Some img \<Rightarrow>
               fetch_results e self category sz results
                 (images @ [img], calls @ [GetImage image_url],
                  if use_cache self
                  then snd (save_image e cache img category (Some (photo_id p)) [] (saved_at p))
                  else cache)))"

text \<open>
  The part of \<open>get_images_by_query\<close> below the first cache check, entered with the
  cache as that check left it.
\<close>

definition query_beyond_cache ::
  "env \<Rightarrow> remote \<Rightarrow> unsplash_client \<Rightarrow> image_cache \<Rightarrow> string \<Rightarrow> nat \<Rightarrow> int \<times> int
     \<Rightarrow> image list \<times> remote_call list \<times> image_cache" where
  "query_beyond_cache e r self cache query count sz =
     (let from_cache = (\<lambda>calls. let (images, cache') = get_cached_images e cache query count (Some sz)
                                in (images, calls, cache'))
      in if cache_only_mode self then from_cache []
         else if no_api_key self then from_cache []
         else
           (let fetch_count = max count 10 in
            case search_photos r query fetch_count of
              Raised \<Rightarrow> from_cache [GetSearch query fetch_count]
            | Response status results \<Rightarrow>
                if status = 200 then
                  (let (images, calls, cache') =
                         fetch_results e self query sz results ([], [GetSearch query fetch_count], cache)
                   in (take count images, calls, cache'))
                else from_cache [GetSearch query fetch_count]))"

definition get_images_by_query ::
  "env \<Rightarrow> remote \<Rightarrow> unsplash_client \<Rightarrow> image_cache \<Rightarrow> string \<Rightarrow> nat \<Rightarrow> int \<times> int
     \<Rightarrow> image list \<times> remote_call list \<times> image_cache" where
  "get_images_by_query e r self cache query count sz =
     (if use_cache self \<and> has_enough_cached e cache query (int count)
      then
        (let (cached_images, cache1) = get_cached_images e cache query count (Some sz)
         in if length cached_images \<ge> count then (take count cached_images, [], cache1)
            else query_beyond_cache e r self cache1 query count sz)
      else query_beyond_cache e r self cache query count sz)"

text \<open>
  An environment in which every file operation succeeds, \<open>random.sample\<close> takes the
  first files of the listing, and \<open>str.isalnum\<close> is that of the ASCII letters and digits.
\<close>

definition plain_env :: env where
  "plain_env =
     \<lparr>isalnum = (\<lambda>c. c \<in> set ''abcdefghijklmnopqrstuvwxyzABCDEFGHIJKLMNOPQRSTUVWXYZ0123456789''),
      random_sample = (\<lambda>files k. take k files),
      save_ok = (\<lambda>_. True),
      unlink_ok = (\<lambda>_. True)\<rparr>"

definition empty_cache :: "int \<Rightarrow> image_cache" where
  "empty_cache cap = \<lparr>dirs = (\<lambda>_. []), max_images_per_category = cap, categories = Map.empty\<rparr>"

definition photo_of :: "string \<Rightarrow> real \<Rightarrow> put" where
  "photo_of name t =
     \<lparr>put_image = \<lparr>source = name, dims = (120, 120)\<rparr>, put_id = name, put_time = t\<rparr>"

text \<open>A remote source that cannot be reached.\<close>

definition unreachable :: remote where
  "unreachable = \<lparr>random_photo = (\<lambda>_. Raised), search_photos = (\<lambda>_ _. Raised)\<rparr>"

section \<open>Challenge generation (puzzle\_captcha.py, image\_captcha.py) and its routes (app.py)\<close>

text \<open>
  The generators draw random numbers and render images. The model takes the outcome of
  each random draw and the rendering (image data as the base64 string that
  \<open>image_to_base64\<close> yields) as arguments, and keeps what the generators compute from
  them. \<open>PuzzleCaptcha\<close> has \<open>puzzle_size = 300\<close> and \<open>piece_size = 60\<close>.
\<close>

definition puzzle_size :: int where
  "puzzle_size = 300"

definition piece_size :: int where
  "piece_size = 60"

record sliding_puzzle =
  sl_background :: string
  sl_piece :: string
  sl_piece_y :: int
  sl_correct_x :: int
  sl_tolerance :: int
  sl_puzzle_width :: int
  sl_puzzle_height :: int
  sl_piece_size :: int

text \<open>
  \<open>generate_sliding_puzzle\<close>: \<open>piece_y\<close> is drawn from 50..190 and \<open>correct_x\<close>
  from 100..190; \<open>render\<close> gives the background with the hole and the cut piece.
\<close>

definition generate_sliding_puzzle :: "(int \<Rightarrow> int \<Rightarrow> string \<times> string) \<Rightarrow> int \<Rightarrow> int \<Rightarrow> sliding_puzzle" where
  "generate_sliding_puzzle render piece_y correct_x =
     \<lparr>sl_background = fst (render correct_x piece_y),
      sl_piece = snd (render correct_x piece_y),
      sl_piece_y = piece_y,
      sl_correct_x = correct_x,
      sl_tolerance = 10,
      sl_puzzle_width = puzzle_size,
      sl_puzzle_height = puzzle_size,
      sl_piece_size = piece_size\<rparr>"

record drag_piece =
  pc_id :: int
  pc_image :: string
  pc_correct_x :: int
  pc_correct_y :: int

record drag_puzzle =
  dr_background :: string
  dr_pieces :: "drag_piece list"
  dr_positions :: "position list"
  dr_tolerance :: int
  dr_puzzle_width :: int
  dr_puzzle_height :: int
  dr_piece_size :: int

text \<open>
  \<open>generate_drag_puzzle\<close>: \<open>selected_cells\<close> is the sample of three cells of the
  3 x 3 grid, \<open>shuffle\<close> the permutation \<open>random.shuffle\<close> applies to the pieces.
\<close>

definition cell_origin :: "int \<Rightarrow> int" where
  "cell_origin g = g * (puzzle_size div 3) + (puzzle_size div 3 - piece_size) div 2"

definition generate_drag_puzzle ::
  "(position list \<Rightarrow> string) \<Rightarrow> (int \<Rightarrow> int \<Rightarrow> string) \<Rightarrow> (int \<times> int) list
     \<Rightarrow> (drag_piece list \<Rightarrow> drag_piece list) \<Rightarrow> drag_puzzle" where
  "generate_drag_puzzle render_background render_piece selected_cells shuffle =
     (let placed = map (\<lambda>(idx, (grid_x, grid_y)). (int idx, cell_origin grid_x, cell_origin grid_y))
                     (enumerate 0 selected_cells);
          positions = map (\<lambda>(idx, x, y). \<lparr>pos_id = idx, pos_x = x, pos_y = y\<rparr>) placed;
          pieces = map (\<lambda>(idx, x, y). \<lparr>pc_id = idx, pc_image = render_piece x y,
                                       pc_correct_x = x, pc_correct_y = y\<rparr>) placed
      in \<lparr>dr_background = render_background positions,
          dr_pieces = shuffle pieces,
          dr_positions = positions,
          dr_tolerance = 15,
          dr_puzzle_width = puzzle_size,
          dr_puzzle_height = puzzle_size,
          dr_piece_size = piece_size\<rparr>)"

record grid_image =
  gi_image :: string
  gi_category :: string
  gi_is_correct :: bool
  gi_index :: int

record grid_challenge =
  gc_target :: string
  gc_prompt :: string
  gc_images :: "grid_image list"
  gc_correct_indices :: "int list"
  gc_required_selections :: int

text \<open>
  The loop \<open>for i in range(9)\<close> of \<open>ImageCaptcha.generate\<close>, with \<open>wrong_idx\<close>
  as it runs; \<open>None\<close> is the \<open>IndexError\<close> of \<open>selected_wrong[wrong_idx]\<close>.
\<close>

fun grid_images ::
  "(string \<Rightarrow> nat \<Rightarrow> string) \<Rightarrow> string \<Rightarrow> string list \<Rightarrow> nat list \<Rightarrow> nat list \<Rightarrow> nat
     \<Rightarrow> grid_image list option" where
  "grid_images render target selected_wrong correct_indices [] wrong_idx = Some []"
| "grid_images render target selected_wrong correct_indices (i # rest) wrong_idx =
     (if i \<in> set correct_indices
      then map_option
             ((#) \<lparr>gi_image = render target i, gi_category = target,
                   gi_is_correct = True, gi_index = int i\<rparr>)
             (grid_images render target selected_wrong correct_indices rest wrong_idx)
      else if wrong_idx < length selected_wrong
      then map_option
             ((#) \<lparr>gi_image = render (selected_wrong ! wrong_idx) i,
                   gi_category = selected_wrong ! wrong_idx,
                   gi_is_correct = False, gi_index = int i\<rparr>)
             (grid_images render target selected_wrong correct_indices rest (wrong_idx + 1))
      else None)"

text \<open>
  \<open>ImageCaptcha.generate\<close>: \<open>target\<close> is the chosen category, \<open>selected_wrong\<close>
  the six other categories sampled, \<open>correct_indices\<close> the sample of three of
  \<open>range(9)\<close>.
\<close>

definition image_captcha_generate ::
  "(string \<Rightarrow> nat \<Rightarrow> string) \<Rightarrow> string \<Rightarrow> string list \<Rightarrow> nat list \<Rightarrow> grid_challenge option" where
  "image_captcha_generate render target selected_wrong correct_indices =
     map_option
       (\<lambda>images. \<lparr>gc_target = target,
                   gc_prompt = ''Select all images containing a '' @ target,
                   gc_images = images,
                   gc_correct_indices = sort (map int correct_indices),
                   gc_required_selections = 3\<rparr>)
       (grid_images render target selected_wrong correct_indices [0..<9] 0)"

text \<open>
  What a route sends to the client is a JSON value; what it keeps is the session. The
  session fields are those the three generation routes write.
\<close>

datatype json =
    JInt int
  | JStr string
  | JList "json list"
  | JObj "(string \<times> json) list"

record session =
  sliding_puzzle_answer :: "int option"
  sliding_puzzle_tolerance :: "int option"
  drag_puzzle_answers :: "correct_position list option"
  drag_puzzle_tolerance :: "int option"
  image_captcha_answers :: "int list option"
  image_required_selections :: "int option"

definition new_session :: session where
  "new_session =
     \<lparr>sliding_puzzle_answer = None, sliding_puzzle_tolerance = None,
      drag_puzzle_answers = None, drag_puzzle_tolerance = None,
      image_captcha_answers = None, image_required_selections = None\<rparr>"

definition json_field :: "json \<Rightarrow> string \<Rightarrow> json option" where
  "json_field j k = (case j of JObj members \<Rightarrow> map_of members k | _ \<Rightarrow> None)"

text \<open>Every key that occurs in a JSON value, at any depth.\<close>

fun json_keys :: "json \<Rightarrow> string list" where
  "json_keys (JInt n) = []"
| "json_keys (JStr s) = []"
| "json_keys (JList xs) = concat (map json_keys xs)"
| "json_keys (JObj members) = concat (map (\<lambda>(k, v). k # json_keys v) members)"

definition position_json :: "position \<Rightarrow> json" where
  "position_json p = JObj [(''id'', JInt (pos_id p)), (''x'', JInt (pos_x p)), (''y'', JInt (pos_y p))]"

text \<open>The route \<open>/api/puzzle-captcha/sliding\<close>.\<close>

definition generate_sliding_puzzle_route :: "sliding_puzzle \<Rightarrow> session \<Rightarrow> session \<times> json" where
  "generate_sliding_puzzle_route result s =
     (s\<lparr>sliding_puzzle_answer := Some (sl_correct_x result),
        sliding_puzzle_tolerance := Some (sl_tolerance result)\<rparr>,
      JObj [(''background'', JStr (sl_background result)),
            (''piece'', JStr (sl_piece result)),
            (''piece_y'', JInt (sl_piece_y result)),
            (''puzzle_width'', JInt (sl_puzzle_width result)),
            (''puzzle_height'', JInt (sl_puzzle_height result)),
            (''piece_size'', JInt (sl_piece_size result))])"

text \<open>The route \<open>/api/puzzle-captcha/drag\<close>.\<close>

definition generate_drag_puzzle_route :: "drag_puzzle \<Rightarrow> session \<Rightarrow> session \<times> json" where
  "generate_drag_puzzle_route result s =
     (s\<lparr>drag_puzzle_answers :=
           Some (map (\<lambda>p. \<lparr>cor_id = pc_id p, cor_x = pc_correct_x p, cor_y = pc_correct_y p\<rparr>)
                   (dr_pieces result)),
        drag_puzzle_tolerance := Some (dr_tolerance result)\<rparr>,
      JObj [(''background'', JStr (dr_background result)),
            (''pieces'', JList (map (\<lambda>p. JObj [(''id'', JInt (pc_id p)), (''image'', JStr (pc_image p))])
                               (dr_pieces result))),
            (''positions'', JList (map position_json (dr_positions result))),
            (''puzzle_width'', JInt (dr_puzzle_width result)),
            (''puzzle_height'', JInt (dr_puzzle_height result)),
            (''piece_size'', JInt (dr_piece_size result))])"

text \<open>The route \<open>/api/image-captcha\<close>.\<close>

definition generate_image_captcha_route :: "grid_challenge \<Rightarrow> session \<Rightarrow> session \<times> json" where
  "generate_image_captcha_route result s =
     (s\<lparr>image_captcha_answers := Some (gc_correct_indices result),
        image_required_selections := Some (gc_required_selections result)\<rparr>,
      JObj [(''prompt'', JStr (gc_prompt result)),
            (''images'', JList (map (\<lambda>img. JObj [(''image'', JStr (gi_image img)),
                                                 (''index'', JInt (gi_index img))])
                               (gc_images result))),
            (''required_selections'', JInt (gc_required_selections result))])"

section \<open>Sliding puzzle: tolerance window\<close>

text \<open>
  C3. For all integers \<open>submitted_x\<close>, \<open>correct_x\<close> and \<open>tolerance\<close>,
  \<open>verify_sliding\<close> is true exactly when the distance between the submitted and the
  correct x is at most the tolerance; a submission exactly \<open>tolerance\<close> away is
  accepted and one at distance \<open>tolerance + 1\<close> is rejected.
\<close>

theorem verify_sliding_iff:
  "verify_sliding submitted_x correct_x tolerance = (\<bar>submitted_x - correct_x\<bar> \<le> tolerance)
   \<and> (\<bar>submitted_x - correct_x\<bar> = tolerance \<longrightarrow> verify_sliding submitted_x correct_x tolerance)
   \<and> (\<bar>submitted_x - correct_x\<bar> = tolerance + 1 \<longrightarrow> \<not> verify_sliding submitted_x correct_x tolerance)"
  by (simp add: verify_sliding_def)

theorem verify_sliding_iff_witness:
  "\<bar>(130::int) - 120\<bar> = 10 \<and> verify_sliding 130 120 10
   \<and> \<bar>(109::int) - 120\<bar> = 10 + 1 \<and> \<not> verify_sliding 109 120 10"
  using verify_sliding_iff [of 130 120 10] verify_sliding_iff [of 109 120 10]
  by simp

section \<open>Drag puzzle: repeated piece ids\<close>

text \<open>
  C2. The claim: whenever the set of piece ids in the submission differs from the set of
  ids in the truth list, \<open>verify_drag\<close> returns false. The source only compares the
  two lengths (under the comment \<open>Check that all pieces are submitted\<close>) and then looks
  each submitted id up, so a submission that places piece 0 twice and never places piece 2
  is accepted. The truth list below is what the generator yields for the cells
  (0,0), (1,1), (2,2).
\<close>

theorem verify_drag_repeated_id_accepted:
  "verify_drag
     [\<lparr>pos_id = 0, pos_x = 20, pos_y = 20\<rparr>, \<lparr>pos_id = 0, pos_x = 25, pos_y = 18\<rparr>,
      \<lparr>pos_id = 1, pos_x = 120, pos_y = 120\<rparr>]
     [\<lparr>cor_id = 0, cor_x = 20, cor_y = 20\<rparr>, \<lparr>cor_id = 1, cor_x = 120, cor_y = 120\<rparr>,
      \<lparr>cor_id = 2, cor_x = 220, cor_y = 220\<rparr>] 15
   \<and> set (map pos_id
        [\<lparr>pos_id = 0, pos_x = 20, pos_y = 20\<rparr>, \<lparr>pos_id = 0, pos_x = 25, pos_y = 18\<rparr>,
         \<lparr>pos_id = 1, pos_x = 120, pos_y = 120\<rparr>])
     \<noteq> set (map cor_id
        [\<lparr>cor_id = 0, cor_x = 20, cor_y = 20\<rparr>, \<lparr>cor_id = 1, cor_x = 120, cor_y = 120\<rparr>,
         \<lparr>cor_id = 2, cor_x = 220, cor_y = 220\<rparr>])"
proof -
  have "(2::int) \<notin> {0, 1}"
    by simp
  then have "{0, 1} \<noteq> {0, 1, 2::int}"
    by blast
  then show ?thesis
    by (simp add: verify_drag_def correct_map_of_def)
qed

section \<open>Grid verification outcome\<close>

text \<open>
  C5. For every submitted index list, stored correct index list and required count, the
  grid verification answers \<open>Correct\<close> exactly when the sorted submission equals the
  sorted correct list; otherwise it answers \<open>InsufficientSelection\<close> exactly when fewer
  than \<open>required\<close> indices were selected; otherwise it answers \<open>Incorrect\<close>.
\<close>

theorem verify_image_captcha_outcome:
  "(verify_image_captcha sel cor req = Correct \<longleftrightarrow> sort sel = sort cor)
   \<and> (verify_image_captcha sel cor req = InsufficientSelection req \<longleftrightarrow>
        sort sel \<noteq> sort cor \<and> int (length sel) < req)
   \<and> (verify_image_captcha sel cor req = Incorrect \<longleftrightarrow>
        sort sel \<noteq> sort cor \<and> \<not> int (length sel) < req)"
  by (simp add: verify_image_captcha_def)

section \<open>Token store: completion without interaction\<close>

text \<open>
  C9. For every challenge id, \<open>complete_challenge\<close> with \<open>user_interaction = False\<close>
  answers with the \<open>InteractionRequired\<close> error, carries no token, and leaves the token
  store as it was.
\<close>

theorem complete_challenge_no_interaction:
  "complete_challenge float_add self cid False tok t_created t_expires
     = (Inl InteractionRequired, self)"
  by (simp add: complete_challenge_def)

section \<open>Token store: one-time use and expiry\<close>

lemma clean_expired_dom: "dom (clean_expired m now) \<subseteq> dom m"
  by (auto simp: clean_expired_def split: option.splits if_splits)

lemma verify_token_absent_after:
  "tok \<notin> dom (valid_tokens (snd (verify_token self tok now)))"
  by (simp add: verify_token_def Let_def)

lemma verify_token_dom:
  "dom (valid_tokens (snd (verify_token self t now))) \<subseteq> dom (valid_tokens self)"
  using clean_expired_dom [of "valid_tokens self" now]
  by (auto simp: verify_token_def Let_def)

lemma verify_token_fails_absent:
  "tok \<notin> dom (valid_tokens self) \<Longrightarrow> fst (verify_token self tok now) = False"
  using clean_expired_dom [of "valid_tokens self" now]
  by (auto simp: verify_token_def Let_def)

lemma verify_token_success:
  "fst (verify_token self tok now) = (\<exists>d. valid_tokens self tok = Some d \<and> now < expires_at d)"
  by (auto simp: verify_token_def Let_def clean_expired_def dom_def split: option.splits)

lemma verify_token_entry:
  "valid_tokens (snd (verify_token self k now)) tok =
     (if k = tok then None
      else case valid_tokens self tok of
             None \<Rightarrow> None
           | Some d \<Rightarrow> if now < expires_at d then Some d else None)"
  by (auto simp: verify_token_def Let_def clean_expired_def dom_def split: option.splits)

lemma complete_challenge_entry:
  "valid_tokens (snd (complete_challenge float_add self cid ui k t1 t2)) tok =
     (if ui \<and> k = tok
      then Some \<lparr>challenge_id = cid, created_at = t1,
                 expires_at = float_add t2 (token_expiry self)\<rparr>
      else valid_tokens self tok)"
  by (simp add: complete_challenge_def generate_token_def)

lemma generate_token_entry:
  "valid_tokens (snd (generate_token float_add self cid k t1 t2)) tok =
     (if k = tok
      then Some \<lparr>challenge_id = cid, created_at = t1,
                 expires_at = float_add t2 (token_expiry self)\<rparr>
      else valid_tokens self tok)"
  by (simp add: generate_token_def)

lemma store_step_expiry:
  "token_expiry (store_step float_add self op) = token_expiry self"
  by (cases op) (simp_all add: verify_token_def complete_challenge_def generate_token_def Let_def)

lemma store_step_absent:
  "tok \<notin> dom (valid_tokens self) \<Longrightarrow> \<not> mints op tok
     \<Longrightarrow> tok \<notin> dom (valid_tokens (store_step float_add self op))"
proof (cases op)
  case (Verify t now)
  assume "tok \<notin> dom (valid_tokens self)"
  with verify_token_dom [of self t now] Verify show ?thesis by auto
next
  case (Complete cid ui t t1 t2)
  assume "tok \<notin> dom (valid_tokens self)" "\<not> mints op tok"
  with Complete show ?thesis
    by (auto simp: mints_def complete_challenge_def generate_token_def)
qed

lemma run_absent:
  "tok \<notin> dom (valid_tokens self) \<Longrightarrow> \<forall>op \<in> set ops. \<not> mints op tok
     \<Longrightarrow> tok \<notin> dom (valid_tokens (foldl (store_step float_add) self ops))"
  by (induction ops arbitrary: self) (simp_all add: store_step_absent)

lemma store_step_spared:
  assumes "valid_tokens self tok = Some d" and "spares op tok (expires_at d)"
  shows "valid_tokens (store_step float_add self op) tok = Some d"
proof (cases op)
  case (Verify t now)
  with assms show ?thesis
    by (simp add: spares_def verify_token_entry)
next
  case (Complete cid ui t t1 t2)
  with assms show ?thesis
    by (auto simp: spares_def mints_def complete_challenge_entry)
qed

lemma run_spared:
  "valid_tokens self tok = Some d \<Longrightarrow> \<forall>op \<in> set ops. spares op tok (expires_at d)
     \<Longrightarrow> valid_tokens (foldl (store_step float_add) self ops) tok = Some d"
  by (induction ops arbitrary: self) (simp_all add: store_step_spared)

lemma verify_fresh:
  "now < float_add t_e (token_expiry self) \<Longrightarrow>
   fst (verify_token (snd (generate_token float_add self cid tok t_c t_e)) tok now)"
  by (simp add: verify_token_def generate_token_def Let_def clean_expired_def dom_def)

lemma verify_expired:
  "valid_tokens self tok = Some d \<Longrightarrow> expires_at d \<le> now \<Longrightarrow> \<not> fst (verify_token self tok now)"
  by (simp add: verify_token_def Let_def clean_expired_def dom_def)

text \<open>
  C4. For every token of the store:
  \<^item> a freshly issued token verifies successfully at any time before its stored expiry;
  \<^item> once a token has been verified, every later verification of it fails, whatever the
    time and whatever other requests (that do not mint the same token value again) ran
    in between;
  \<^item> a stored token with \<open>expires_at \<le> now\<close> fails verification although it was
    never consumed, and after any verification request at that time it stays invalid;
  \<^item> no transition back: a token absent from the store stays absent under every run of
    requests that does not mint it;
  \<^item> verification succeeds exactly when the token is stored and not yet expired;
  \<^item> the entry of a token after any one request: a verification removes the token it
    verifies and the expired tokens and leaves every other entry as it was; a completion
    (and \<open>generate_token\<close>, which it calls) writes the entry of the token it mints,
    returns that token, and leaves every other entry as it was; no request changes
    \<open>token_expiry\<close>;
  \<^item> so an issued token stays issued, with its entry unchanged, through every run of
    requests that spares it, and then verifies successfully before its expiry.
\<close>

theorem token_lifecycle:
  "(now < float_add t_e (token_expiry self) \<longrightarrow>
      fst (verify_token (snd (generate_token float_add self cid tok t_c t_e)) tok now))
   \<and> ((\<forall>op \<in> set ops. \<not> mints op tok) \<longrightarrow>
      \<not> fst (verify_token (foldl (store_step float_add) (snd (verify_token self tok now)) ops)
               tok now'))
   \<and> (valid_tokens self tok = Some d \<and> expires_at d \<le> now \<longrightarrow>
      \<not> fst (verify_token self tok now)
      \<and> ((\<forall>op \<in> set ops. \<not> mints op tok) \<longrightarrow>
           \<not> fst (verify_token
                   (foldl (store_step float_add) (snd (verify_token self tok' now)) ops)
                   tok now')))
   \<and> (tok \<notin> dom (valid_tokens self) \<and> (\<forall>op \<in> set ops. \<not> mints op tok) \<longrightarrow>
      tok \<notin> dom (valid_tokens (foldl (store_step float_add) self ops)))
   \<and> fst (verify_token self tok now)
        = (\<exists>entry. valid_tokens self tok = Some entry \<and> now < expires_at entry)
   \<and> valid_tokens (snd (verify_token self tok' now)) tok
        = (if tok' = tok then None
           else case valid_tokens self tok of
                  None \<Rightarrow> None
                | Some entry \<Rightarrow> if now < expires_at entry then Some entry else None)
   \<and> valid_tokens (snd (complete_challenge float_add self cid ui tok' t_c t_e)) tok
        = (if ui \<and> tok' = tok
           then Some \<lparr>challenge_id = cid, created_at = t_c,
                      expires_at = float_add t_e (token_expiry self)\<rparr>
           else valid_tokens self tok)
   \<and> valid_tokens (snd (generate_token float_add self cid tok' t_c t_e)) tok
        = (if tok' = tok
           then Some \<lparr>challenge_id = cid, created_at = t_c,
                      expires_at = float_add t_e (token_expiry self)\<rparr>
           else valid_tokens self tok)
   \<and> fst (generate_token float_add self cid tok' t_c t_e) = tok'
   \<and> token_expiry (store_step float_add self op) = token_expiry self
   \<and> (valid_tokens self tok = Some d \<and> (\<forall>op \<in> set ops. spares op tok (expires_at d)) \<longrightarrow>
      valid_tokens (foldl (store_step float_add) self ops) tok = Some d
      \<and> (now' < expires_at d \<longrightarrow>
           fst (verify_token (foldl (store_step float_add) self ops) tok now')))"
proof (intro conjI impI)
  assume "now < float_add t_e (token_expiry self)"
  then show "fst (verify_token (snd (generate_token float_add self cid tok t_c t_e)) tok now)"
    by (rule verify_fresh)
next
  assume "\<forall>op \<in> set ops. \<not> mints op tok"
  then have "tok \<notin> dom (valid_tokens
      (foldl (store_step float_add) (snd (verify_token self tok now)) ops))"
    by (rule run_absent [OF verify_token_absent_after])
  then show "\<not> fst (verify_token
      (foldl (store_step float_add) (snd (verify_token self tok now)) ops) tok now')"
    by (simp add: verify_token_fails_absent)
next
  assume "valid_tokens self tok = Some d \<and> expires_at d \<le> now"
  then show "\<not> fst (verify_token self tok now)"
    by (simp add: verify_expired)
next
  assume d: "valid_tokens self tok = Some d \<and> expires_at d \<le> now"
    and ops: "\<forall>op \<in> set ops. \<not> mints op tok"
  from d have "tok \<notin> dom (valid_tokens (snd (verify_token self tok' now)))"
    by (auto simp: verify_token_def Let_def clean_expired_def dom_def split: if_splits)
  then have "tok \<notin> dom (valid_tokens
      (foldl (store_step float_add) (snd (verify_token self tok' now)) ops))"
    using ops by (rule run_absent)
  then show "\<not> fst (verify_token
      (foldl (store_step float_add) (snd (verify_token self tok' now)) ops) tok now')"
    by (simp add: verify_token_fails_absent)
next
  assume "tok \<notin> dom (valid_tokens self) \<and> (\<forall>op \<in> set ops. \<not> mints op tok)"
  then show "tok \<notin> dom (valid_tokens (foldl (store_step float_add) self ops))"
    by (simp add: run_absent)
next
  show "fst (verify_token self tok now)
      = (\<exists>entry. valid_tokens self tok = Some entry \<and> now < expires_at entry)"
    by (rule verify_token_success)
next
  show "valid_tokens (snd (verify_token self tok' now)) tok
      = (if tok' = tok then None
         else case valid_tokens self tok of
                None \<Rightarrow> None
              | Some entry \<Rightarrow> if now < expires_at entry then Some entry else None)"
    by (rule verify_token_entry)
next
  show "valid_tokens (snd (complete_challenge float_add self cid ui tok' t_c t_e)) tok
      = (if ui \<and> tok' = tok
         then Some \<lparr>challenge_id = cid, created_at = t_c,
                    expires_at = float_add t_e (token_expiry self)\<rparr>
         else valid_tokens self tok)"
    by (rule complete_challenge_entry)
next
  show "valid_tokens (snd (generate_token float_add self cid tok' t_c t_e)) tok
      = (if tok' = tok
         then Some \<lparr>challenge_id = cid, created_at = t_c,
                    expires_at = float_add t_e (token_expiry self)\<rparr>
         else valid_tokens self tok)"
    by (rule generate_token_entry)
next
  show "fst (generate_token float_add self cid tok' t_c t_e) = tok'"
    by (simp add: generate_token_def)
next
  show "token_expiry (store_step float_add self op) = token_expiry self"
    by (rule store_step_expiry)
next
  assume "valid_tokens self tok = Some d \<and> (\<forall>op \<in> set ops. spares op tok (expires_at d))"
  then show "valid_tokens (foldl (store_step float_add) self ops) tok = Some d"
    by (simp add: run_spared)
next
  assume kept: "valid_tokens self tok = Some d \<and> (\<forall>op \<in> set ops. spares op tok (expires_at d))"
    and early: "now' < expires_at d"
  from kept have "valid_tokens (foldl (store_step float_add) self ops) tok = Some d"
    by (simp add: run_spared)
  with early show "fst (verify_token (foldl (store_step float_add) self ops) tok now')"
    by (auto simp: verify_token_success)
qed

text \<open>
  An instance with the clock at 1000 and the expiry of 300 seconds; these doubles add
  without rounding, so \<open>float_add\<close> is the sum of the reals.
\<close>

theorem token_lifecycle_witness:
  "(1100::real) < 1000 + token_expiry init_cloudflare
   \<and> fst (verify_token (snd (generate_token (+) init_cloudflare ''c1'' ''t1'' 1000 1000)) ''t1'' 1100)
   \<and> \<not> mints (Verify ''t2'' 1200) ''t1'' \<and> \<not> mints (Complete ''c2'' True ''t3'' 1200 1200) ''t1''
   \<and> \<not> fst (verify_token (foldl (store_step (+))
         (snd (verify_token (snd (generate_token (+) init_cloudflare ''c1'' ''t1'' 1000 1000)) ''t1'' 1100))
         [Verify ''t2'' 1200, Complete ''c2'' True ''t3'' 1200 1200]) ''t1'' 1250)
   \<and> valid_tokens (snd (generate_token (+) init_cloudflare ''c1'' ''t1'' 1000 1000)) ''t1''
       = Some \<lparr>challenge_id = ''c1'', created_at = 1000, expires_at = 1300\<rparr>
   \<and> expires_at \<lparr>challenge_id = ''c1'', created_at = 1000, expires_at = 1300\<rparr> \<le> (1300::real)
   \<and> \<not> fst (verify_token (snd (generate_token (+) init_cloudflare ''c1'' ''t1'' 1000 1000)) ''t1'' 1300)
   \<and> \<not> fst (verify_token (foldl (store_step (+))
         (snd (verify_token (snd (generate_token (+) init_cloudflare ''c1'' ''t1'' 1000 1000)) ''t2'' 1300))
         [Verify ''t2'' 1200, Complete ''c2'' True ''t3'' 1200 1200]) ''t1'' 1250)
   \<and> ''t1'' \<notin> dom (valid_tokens init_cloudflare)
   \<and> ''t1'' \<notin> dom (valid_tokens (foldl (store_step (+)) init_cloudflare
         [Verify ''t2'' 1200, Complete ''c2'' True ''t3'' 1200 1200]))
   \<and> spares (Verify ''t2'' 1200) ''t1'' 1300 \<and> spares (Complete ''c2'' True ''t3'' 1200 1200) ''t1'' 1300
   \<and> valid_tokens (foldl (store_step (+))
         (snd (generate_token (+) init_cloudflare ''c1'' ''t1'' 1000 1000))
         [Verify ''t2'' 1200, Complete ''c2'' True ''t3'' 1200 1200]) ''t1''
       = Some \<lparr>challenge_id = ''c1'', created_at = 1000, expires_at = 1300\<rparr>
   \<and> fst (verify_token (foldl (store_step (+))
         (snd (generate_token (+) init_cloudflare ''c1'' ''t1'' 1000 1000))
         [Verify ''t2'' 1200, Complete ''c2'' True ''t3'' 1200 1200]) ''t1'' 1250)"
proof -
  let ?ops = "[Verify ''t2'' 1200, Complete ''c2'' True ''t3'' 1200 1200]"
  let ?issued = "snd (generate_token (+) init_cloudflare ''c1'' ''t1'' 1000 1000)"
  let ?d = "\<lparr>challenge_id = ''c1'', created_at = 1000, expires_at = 1300\<rparr>"
  have each: "\<not> mints (Verify ''t2'' 1200) ''t1'' \<and> \<not> mints (Complete ''c2'' True ''t3'' 1200 1200) ''t1''"
    by (simp add: mints_def)
  then have ops: "\<forall>op \<in> set ?ops. \<not> mints op ''t1''"
    by simp
  have spared: "spares (Verify ''t2'' 1200) ''t1'' 1300
      \<and> spares (Complete ''c2'' True ''t3'' 1200 1200) ''t1'' 1300"
    by (simp add: spares_def mints_def)
  then have sparing: "\<forall>op \<in> set ?ops. spares op ''t1'' (expires_at ?d)"
    by simp
  have fresh: "(1100::real) < 1000 + token_expiry init_cloudflare"
    by (simp add: init_cloudflare_def)
  have stored: "valid_tokens ?issued ''t1'' = Some ?d"
    by (simp add: generate_token_def init_cloudflare_def)
  have old: "expires_at ?d \<le> (1300::real)"
    by simp
  have early: "(1250::real) < expires_at ?d"
    by simp
  have absent: "''t1'' \<notin> dom (valid_tokens init_cloudflare)"
    by (simp add: init_cloudflare_def)
  note a = token_lifecycle [where now = 1100 and float_add = "(+)" and t_e = 1000
      and self = init_cloudflare and cid = "''c1''" and tok = "''t1''" and t_c = 1000
      and ops = ?ops and now' = 1250]
  note b = token_lifecycle [where now = 1100 and float_add = "(+)" and self = ?issued
      and tok = "''t1''" and ops = ?ops and now' = 1250 and d = ?d]
  note c = token_lifecycle [where now = 1300 and float_add = "(+)" and self = ?issued
      and tok = "''t1''" and ops = ?ops and now' = 1250 and d = ?d and tok' = "''t2''"]
  from a fresh have 1: "fst (verify_token ?issued ''t1'' 1100)"
    by blast
  from b ops have 2: "\<not> fst (verify_token
      (foldl (store_step (+)) (snd (verify_token ?issued ''t1'' 1100)) ?ops) ''t1'' 1250)"
    by blast
  from c stored old ops have 3: "\<not> fst (verify_token ?issued ''t1'' 1300)"
    and 4: "\<not> fst (verify_token
      (foldl (store_step (+)) (snd (verify_token ?issued ''t2'' 1300)) ?ops) ''t1'' 1250)"
    by blast+
  from a absent ops have 5: "''t1'' \<notin> dom (valid_tokens (foldl (store_step (+)) init_cloudflare ?ops))"
    by blast
  from b stored sparing have 6: "valid_tokens (foldl (store_step (+)) ?issued ?ops) ''t1'' = Some ?d"
    by blast
  from b stored sparing early have 7: "fst (verify_token (foldl (store_step (+)) ?issued ?ops) ''t1'' 1250)"
    by blast
  from each spared fresh stored old absent 1 2 3 4 5 6 7 show ?thesis
    by blast
qed

section \<open>Image cache: eviction\<close>

lemma unlink_each_filter:
  "unlink_each e fs d =
     filter (\<lambda>g. \<not> (\<exists>f \<in> set fs. fname f = fname g \<and> unlink_ok e (fname f))) d"
proof (induction fs arbitrary: d)
  case Nil
  show ?case by simp
next
  case (Cons f fs)
  show ?case
    by (auto simp: Cons.IH unlink_def intro: filter_cong)
qed

lemma unlink_each_all_ok:
  assumes "\<forall>n. unlink_ok e n"
  shows "unlink_each e fs d = filter (\<lambda>g. fname g \<notin> fname ` set fs) d"
proof -
  have "(\<not> (\<exists>f \<in> set fs. fname f = fname g \<and> unlink_ok e (fname f))) = (fname g \<notin> fname ` set fs)"
    for g
    using assms by force
  then have "(\<lambda>g. \<not> (\<exists>f \<in> set fs. fname f = fname g \<and> unlink_ok e (fname f)))
      = (\<lambda>g. fname g \<notin> fname ` set fs)"
    by (rule ext)
  then show ?thesis
    unfolding unlink_each_filter by (rule arg_cong)
qed

lemma glob_images_filter: "glob_images (filter P d) = filter P (glob_images d)"
  by (simp add: glob_images_def conj_commute)

lemma filter_sorted_length:
  "length (filter P (sort_key k xs)) = length (filter P xs)"
  by (simp add: filter_sort)

lemma length_filter_not_taken:
  "length (filter (\<lambda>g. fname g \<notin> fname ` set (take n (sort_key k xs))) xs) \<le> length xs - n"
proof -
  let ?s = "sort_key k xs"
  let ?P = "\<lambda>g. fname g \<notin> fname ` set (take n ?s)"
  have "length (filter ?P xs) = length (filter ?P ?s)"
    by (simp only: filter_sorted_length)
  also have "\<dots> = length (filter ?P (take n ?s @ drop n ?s))"
    by simp
  also have "\<dots> = length (filter ?P (take n ?s)) + length (filter ?P (drop n ?s))"
    by (simp only: filter_append length_append)
  also have "filter ?P (take n ?s) = []"
    by (simp add: filter_empty_conv)
  also have "length [] + length (filter ?P (drop n ?s)) \<le> length (drop n ?s)"
    using length_filter_le [of ?P "drop n ?s"] by (simp only: list.size add_0)
  finally show ?thesis by simp
qed

lemma cleanup_category_cap:
  assumes ok: "\<forall>n. unlink_ok e n" and cap: "0 \<le> max_images_per_category self"
  shows "get_cache_count e (cleanup_category e self category) category
           \<le> max_images_per_category self"
proof -
  let ?cd = "safe_category e category"
  let ?xs = "glob_images (dirs self ?cd)"
  let ?m = "max_images_per_category self"
  show ?thesis
  proof (cases "int (length ?xs) > ?m")
    case False
    then show ?thesis
      by (simp add: cleanup_category_def get_cache_count_def Let_def)
  next
    case True
    let ?n = "nat (int (length ?xs) - ?m)"
    have "length (filter (\<lambda>g. fname g \<notin> fname ` set (take ?n (sort_key mtime ?xs))) ?xs)
            \<le> length ?xs - ?n"
      by (rule length_filter_not_taken)
    moreover have "int (length ?xs - ?n) = ?m"
      using True cap by linarith
    ultimately show ?thesis
      using True
      by (simp add: cleanup_category_def get_cache_count_def Let_def
          unlink_each_all_ok [OF ok] glob_images_filter)
  qed
qed

lemma cleanup_category_max [simp]:
  "max_images_per_category (cleanup_category e self category) = max_images_per_category self"
  by (simp add: cleanup_category_def Let_def)

lemma cleanup_category_subset:
  "set (glob_images (dirs (cleanup_category e self category) (safe_category e category)))
     \<subseteq> set (glob_images (dirs self (safe_category e category)))"
  by (auto simp: cleanup_category_def Let_def unlink_each_filter glob_images_filter)

lemma sorted_take_drop_le:
  assumes "sorted (map k s)" "x \<in> set (take n s)" "y \<in> set (drop n s)"
  shows "k x \<le> k y"
proof -
  have "sorted (map k (take n s) @ map k (drop n s))"
    using assms(1) by (simp only: map_append [symmetric] append_take_drop_id)
  then show ?thesis
    using assms(2,3) by (auto simp: sorted_append)
qed

lemma glob_images_distinct_names:
  assumes "distinct (map fname d)"
  shows "inj_on fname (set (glob_images d))"
proof -
  have "set (glob_images d) \<subseteq> set d"
    by (auto simp: glob_images_def)
  moreover have "inj_on fname (set d)"
    using assms by (simp add: distinct_map)
  ultimately show ?thesis
    by (rule inj_on_subset [rotated])
qed

lemma cleanup_category_oldest_first:
  assumes ok: "\<forall>n. unlink_ok e n"
    and names: "distinct (map fname (dirs self (safe_category e category)))"
    and f: "f \<in> set (glob_images (dirs self (safe_category e category)))"
    and gone: "f \<notin> set (glob_images (dirs (cleanup_category e self category) (safe_category e category)))"
    and g: "g \<in> set (glob_images (dirs (cleanup_category e self category) (safe_category e category)))"
  shows "mtime f \<le> mtime g"
proof -
  let ?cd = "safe_category e category"
  let ?xs = "glob_images (dirs self ?cd)"
  let ?m = "max_images_per_category self"
  let ?n = "nat (int (length ?xs) - ?m)"
  let ?s = "sort_key mtime ?xs"
  have over: "int (length ?xs) > ?m"
  proof (rule ccontr)
    assume "\<not> int (length ?xs) > ?m"
    then have "cleanup_category e self category = self"
      by (simp add: cleanup_category_def Let_def)
    with f gone show False by simp
  qed
  then have after: "glob_images (dirs (cleanup_category e self category) ?cd)
      = filter (\<lambda>g. fname g \<notin> fname ` set (take ?n ?s)) ?xs"
    by (simp add: cleanup_category_def Let_def unlink_each_all_ok [OF ok] glob_images_filter)
  have inj: "inj_on fname (set ?xs)"
    using names by (rule glob_images_distinct_names)
  have taken_sub: "set (take ?n ?s) \<subseteq> set ?xs"
    using set_take_subset [of ?n ?s] by simp
  from f gone after obtain f' where f': "f' \<in> set (take ?n ?s)" "fname f' = fname f"
    by auto
  with inj f taken_sub have "f' = f"
    by (auto dest: inj_onD)
  with f' have f_taken: "f \<in> set (take ?n ?s)"
    by simp
  from g after have g_xs: "g \<in> set ?xs" and "fname g \<notin> fname ` set (take ?n ?s)"
    by auto
  then have "g \<notin> set (take ?n ?s)"
    by auto
  moreover have "g \<in> set (take ?n ?s @ drop ?n ?s)"
    using g_xs by simp
  ultimately have g_kept: "g \<in> set (drop ?n ?s)"
    by (simp only: set_append) blast
  have "sorted (map mtime ?s)"
    by simp
  then show ?thesis
    using f_taken g_kept by (rule sorted_take_drop_le)
qed

lemma write_file_names:
  "distinct (map fname d) \<Longrightarrow> distinct (map fname (write_file name t img d))"
proof -
  assume d: "distinct (map fname d)"
  have same: "map fname (map (\<lambda>f. if fname f = name then f\<lparr>mtime := t, content := Some img\<rparr> else f) d)
      = map fname d"
    by (induction d) auto
  show ?thesis
  proof (cases "list_ex (\<lambda>f. fname f = name) d")
    case True
    then have "write_file name t img d
        = map (\<lambda>f. if fname f = name then f\<lparr>mtime := t, content := Some img\<rparr> else f) d"
      by (simp only: write_file_def if_True)
    with d same show ?thesis
      by (simp only:)
  next
    case False
    then have "name \<notin> fname ` set d"
      by (auto simp: list_ex_iff)
    with d False show ?thesis
      by (simp add: write_file_def)
  qed
qed

lemma endswith_jpg: "endswith (s @ ''.jpg'') ''.jpg''" "\<not> endswith (s @ ''.jpg'') ''.png''"
  by (simp_all add: endswith_def)

lemma glob_images_stored: "glob_images (map stored zs) = map stored zs"
  by (simp add: glob_images_def stored_def endswith_jpg filter_map comp_def)

lemma stored_names: "distinct (map put_id zs) \<Longrightarrow> distinct (map fname (map stored zs))"
proof -
  assume "distinct (map put_id zs)"
  moreover have "map fname (map stored zs) = map (\<lambda>i. i @ ''.jpg'') (map put_id zs)"
    by (simp add: stored_def)
  moreover have "inj (\<lambda>i::string. i @ ''.jpg'')"
    by (simp add: inj_on_def)
  ultimately show ?thesis
    by (simp only: distinct_map) (auto intro: inj_on_subset)
qed

lemma stored_times: "sorted_wrt (<) (map put_time zs) \<Longrightarrow> sorted (map mtime (map stored zs))"
proof -
  assume "sorted_wrt (<) (map put_time zs)"
  then have "sorted (map put_time zs)"
    by (rule strict_sorted_imp_sorted)
  moreover have "map mtime (map stored zs) = map put_time zs"
    by (simp add: stored_def)
  ultimately show ?thesis by (simp only:)
qed

lemma filter_not_taken_distinct:
  assumes "distinct (map k xs)"
  shows "filter (\<lambda>g. k g \<notin> k ` set (take n xs)) xs = drop n xs"
proof -
  let ?P = "\<lambda>g. k g \<notin> k ` set (take n xs)"
  have "distinct (map k (take n xs) @ map k (drop n xs))"
    using assms by (simp only: map_append [symmetric] append_take_drop_id)
  then have disj: "k ` set (take n xs) \<inter> k ` set (drop n xs) = {}"
    by simp
  have "filter ?P xs = filter ?P (take n xs) @ filter ?P (drop n xs)"
    by (simp only: filter_append [symmetric] append_take_drop_id)
  moreover have "filter ?P (take n xs) = []"
    by (simp add: filter_empty_conv)
  moreover have "filter ?P (drop n xs) = drop n xs"
    using disj by (auto simp: filter_id_conv)
  ultimately show ?thesis by simp
qed

lemma cleanup_category_chrono:
  assumes ok: "\<forall>n. unlink_ok e n" and cap: "0 \<le> max_images_per_category self"
    and dir: "dirs self (safe_category e category) = map stored zs"
    and times: "sorted_wrt (<) (map put_time zs)"
    and ids: "distinct (map put_id zs)"
  shows "dirs (cleanup_category e self category) (safe_category e category)
           = map stored (drop (length zs - nat (max_images_per_category self)) zs)"
proof (cases "int (length zs) > max_images_per_category self")
  case False
  then have "length zs - nat (max_images_per_category self) = 0"
    by linarith
  with False dir show ?thesis
    by (simp add: cleanup_category_def Let_def glob_images_stored)
next
  case True
  let ?n = "nat (int (length zs) - max_images_per_category self)"
  have n: "?n = length zs - nat (max_images_per_category self)"
    using cap by linarith
  have "sort_key mtime (map stored zs) = map stored zs"
    using times by (intro sort_key_id_if_sorted stored_times)
  moreover have "filter (\<lambda>g. fname g \<notin> fname ` set (take ?n (map stored zs))) (map stored zs)
      = drop ?n (map stored zs)"
    using ids by (intro filter_not_taken_distinct stored_names)
  ultimately show ?thesis
    using True dir n
    by (simp add: cleanup_category_def Let_def glob_images_stored unlink_each_all_ok [OF ok] drop_map)
qed

lemma save_image_max [simp]:
  "max_images_per_category (snd (save_image e self img category image_id gid now))
     = max_images_per_category self"
  by (simp add: save_image_def Let_def)

lemma save_image_chrono:
  assumes sok: "\<forall>n. save_ok e n" and ok: "\<forall>n. unlink_ok e n"
    and cap: "0 \<le> max_images_per_category self"
    and dir: "dirs self (safe_category e category) = map stored qs"
    and times: "sorted_wrt (<) (map put_time (qs @ [p]))"
    and ids: "distinct (map put_id (qs @ [p]))"
  shows "dirs (snd (save_image e self (put_image p) category (Some (put_id p)) [] (put_time p)))
           (safe_category e category)
         = map stored (drop (length (qs @ [p]) - nat (max_images_per_category self)) (qs @ [p]))"
proof -
  let ?cd = "safe_category e category"
  let ?self1 = "self\<lparr>dirs := (dirs self)(?cd := map stored (qs @ [p]))\<rparr>"
  let ?self2 = "?self1\<lparr>categories := (categories ?self1)(category \<mapsto>
      \<lparr>md_count = get_cache_count e ?self1 category, last_updated = Some (put_time p)\<rparr>)\<rparr>"
  have "put_id p \<notin> put_id ` set qs"
    using ids by simp
  then have "\<forall>q \<in> set qs. put_id q \<noteq> put_id p"
    by (metis image_eqI)
  then have "\<not> list_ex (\<lambda>f. fname f = put_id p @ ''.jpg'') (map stored qs)"
    by (auto simp: list_ex_iff stored_def)
  then have w: "write_file (put_id p @ ''.jpg'') (put_time p) (put_image p) (map stored qs)
      = map stored (qs @ [p])"
    by (simp add: write_file_def stored_def)
  have "snd (save_image e self (put_image p) category (Some (put_id p)) [] (put_time p))
      = cleanup_category e ?self2 category"
    using sok by (simp add: save_image_def Let_def dir w)
  moreover have "dirs (cleanup_category e ?self2 category) ?cd
      = map stored (drop (length (qs @ [p]) - nat (max_images_per_category ?self2)) (qs @ [p]))"
    using ok _ _ times ids by (rule cleanup_category_chrono) (simp_all add: cap)
  ultimately show ?thesis by simp
qed

lemma sorted_wrt_suffix: "sorted_wrt P (xs @ ys) \<Longrightarrow> sorted_wrt P ys"
  by (simp add: sorted_wrt_append)

lemma distinct_suffix: "distinct (xs @ ys) \<Longrightarrow> distinct ys"
  by simp

lemma drop_window:
  fixes m :: nat
  shows "drop (length (drop (length zs - m) zs @ ps) - m) (drop (length zs - m) zs @ ps)
     = drop (length (zs @ ps) - m) (zs @ ps)"
proof -
  let ?k = "length zs - m"
  have "drop ?k zs @ ps = drop ?k (zs @ ps)"
    by simp
  moreover have "length (drop ?k zs @ ps) - m + ?k = length (zs @ ps) - m"
    by simp
  ultimately show ?thesis
    by (simp only: drop_drop)
qed

lemma save_all_chrono:
  assumes sok: "\<forall>n. save_ok e n" and ok: "\<forall>n. unlink_ok e n"
  shows "0 \<le> max_images_per_category self
     \<Longrightarrow> dirs self (safe_category e category) = map stored qs
     \<Longrightarrow> length qs \<le> nat (max_images_per_category self)
     \<Longrightarrow> sorted_wrt (<) (map put_time (qs @ ps))
     \<Longrightarrow> distinct (map put_id (qs @ ps))
     \<Longrightarrow> dirs (save_all e self category ps) (safe_category e category)
           = map stored (drop (length (qs @ ps) - nat (max_images_per_category self)) (qs @ ps))"
proof (induction ps arbitrary: self qs)
  case Nil
  then show ?case by simp
next
  case (Cons p ps)
  let ?m = "nat (max_images_per_category self)"
  let ?self' = "snd (save_image e self (put_image p) category (Some (put_id p)) [] (put_time p))"
  let ?k = "length (qs @ [p]) - ?m"
  let ?qs' = "drop ?k (qs @ [p])"
  have split: "qs @ p # ps = (qs @ [p]) @ ps"
    by simp
  have times1: "sorted_wrt (<) (map put_time (qs @ [p]))"
    using Cons.prems(4) by (auto simp: sorted_wrt_append)
  have ids1: "distinct (map put_id (qs @ [p]))"
    using Cons.prems(5) by auto
  have dir': "dirs ?self' (safe_category e category) = map stored ?qs'"
    using sok ok Cons.prems(1,2) times1 ids1 by (rule save_image_chrono)
  have whole: "(qs @ [p]) @ ps = take ?k (qs @ [p]) @ (?qs' @ ps)"
    by (metis append_assoc append_take_drop_id)
  have "sorted_wrt (<) (map put_time (take ?k (qs @ [p])) @ map put_time (?qs' @ ps))"
    using Cons.prems(4) unfolding split
    by (subst (asm) whole) (simp only: map_append)
  then have times': "sorted_wrt (<) (map put_time (?qs' @ ps))"
    by (rule sorted_wrt_suffix)
  have "distinct (map put_id (take ?k (qs @ [p])) @ map put_id (?qs' @ ps))"
    using Cons.prems(5) unfolding split
    by (subst (asm) whole) (simp only: map_append)
  then have ids': "distinct (map put_id (?qs' @ ps))"
    by (rule distinct_suffix)
  have len': "length ?qs' \<le> nat (max_images_per_category ?self')"
    using Cons.prems(3) by simp
  have step: "dirs (save_all e ?self' category ps) (safe_category e category)
      = map stored (drop (length (?qs' @ ps) - nat (max_images_per_category ?self')) (?qs' @ ps))"
    using _ dir' len' times' ids' by (rule Cons.IH) (simp add: Cons.prems(1))
  have window: "drop (length (?qs' @ ps) - ?m) (?qs' @ ps)
      = drop (length (qs @ p # ps) - ?m) (qs @ p # ps)"
    unfolding split by (rule drop_window)
  have "dirs (save_all e self category (p # ps)) (safe_category e category)
      = dirs (save_all e ?self' category ps) (safe_category e category)"
    by (simp only: save_all.simps)
  also have "\<dots> = map stored (drop (length (?qs' @ ps) - ?m) (?qs' @ ps))"
    using step by (simp only: save_image_max)
  also have "\<dots> = map stored (drop (length (qs @ p # ps) - ?m) (qs @ p # ps))"
    by (simp only: window)
  finally show ?case .
qed

lemma save_image_unfold:
  assumes "save_ok e ((case image_id of None \<Rightarrow> gid | Some i \<Rightarrow> i) @ ''.jpg'')"
  shows "\<exists>self2. snd (save_image e self img category image_id gid now)
              = cleanup_category e self2 category
           \<and> max_images_per_category self2 = max_images_per_category self
           \<and> dirs self2 (safe_category e category)
              = write_file ((case image_id of None \<Rightarrow> gid | Some i \<Rightarrow> i) @ ''.jpg'') now img
                  (dirs self (safe_category e category))"
  using assms
  by (simp add: save_image_def Let_def) (intro exI conjI, rule refl, simp_all)

text \<open>
  C6, as amended. With every file operation succeeding and a cap that is not negative:
  \<^item> after \<open>max_images_per_category + k\<close> images with distinct ids have been saved at
    strictly increasing times into a category whose directory was empty, the category
    holds exactly \<open>max_images_per_category\<close> images, the most recently written ones;
  \<^item> immediately after any \<open>save_image\<close> the category holds at most
    \<open>max_images_per_category\<close> images;
  \<^item> the images that a \<open>save_image\<close> evicts are no younger than any image it keeps.
\<close>

theorem save_image_eviction:
  assumes sok: "\<forall>n. save_ok e n" and ok: "\<forall>n. unlink_ok e n"
    and cap: "0 \<le> max_images_per_category self"
  shows "(dirs self (safe_category e category) = []
          \<and> sorted_wrt (<) (map put_time puts) \<and> distinct (map put_id puts)
          \<and> length puts = nat (max_images_per_category self) + k
          \<longrightarrow> get_cache_count e (save_all e self category puts) category
                = max_images_per_category self
              \<and> glob_images (dirs (save_all e self category puts) (safe_category e category))
                = map stored (drop k puts))
     \<and> get_cache_count e (snd (save_image e self img category image_id gid now)) category
          \<le> max_images_per_category self
     \<and> (distinct (map fname (dirs self (safe_category e category)))
          \<longrightarrow> (\<forall>f \<in> set (glob_images
                         (write_file ((case image_id of None \<Rightarrow> gid | Some i \<Rightarrow> i) @ ''.jpg'') now img
                            (dirs self (safe_category e category)))).
               \<forall>g \<in> set (glob_images
                         (dirs (snd (save_image e self img category image_id gid now))
                            (safe_category e category))).
                 f \<notin> set (glob_images
                         (dirs (snd (save_image e self img category image_id gid now))
                            (safe_category e category)))
                 \<longrightarrow> mtime f \<le> mtime g))"
proof (intro conjI impI ballI)
  let ?cd = "safe_category e category"
  let ?m = "max_images_per_category self"
  assume run: "dirs self ?cd = [] \<and> sorted_wrt (<) (map put_time puts)
      \<and> distinct (map put_id puts) \<and> length puts = nat ?m + k"
  then have "dirs self ?cd = map stored []"
    by simp
  then have "dirs (save_all e self category puts) ?cd
      = map stored (drop (length ([] @ puts) - nat ?m) ([] @ puts))"
    using run by (intro save_all_chrono [OF sok ok cap]) simp_all
  with run have final: "dirs (save_all e self category puts) ?cd = map stored (drop k puts)"
    by simp
  then show "glob_images (dirs (save_all e self category puts) ?cd) = map stored (drop k puts)"
    by (simp only: glob_images_stored)
  from final run cap show "get_cache_count e (save_all e self category puts) category = ?m"
    by (simp add: get_cache_count_def glob_images_stored)
next
  from sok obtain self2 where s2:
    "snd (save_image e self img category image_id gid now) = cleanup_category e self2 category"
    "max_images_per_category self2 = max_images_per_category self"
    using save_image_unfold [where e = e and image_id = image_id and gid = gid and self = self
        and img = img and category = category and now = now]
    by blast
  from cap s2(2) have "get_cache_count e (cleanup_category e self2 category) category
      \<le> max_images_per_category self2"
    by (intro cleanup_category_cap [OF ok]) simp
  with s2 show "get_cache_count e (snd (save_image e self img category image_id gid now)) category
      \<le> max_images_per_category self"
    by simp
next
  fix f g
  let ?cd = "safe_category e category"
  let ?fn = "(case image_id of None \<Rightarrow> gid | Some i \<Rightarrow> i) @ ''.jpg''"
  let ?after = "dirs (snd (save_image e self img category image_id gid now)) ?cd"
  assume names: "distinct (map fname (dirs self ?cd))"
    and f: "f \<in> set (glob_images (write_file ?fn now img (dirs self ?cd)))"
    and g: "g \<in> set (glob_images ?after)"
    and gone: "f \<notin> set (glob_images ?after)"
  from sok obtain self2 where s2:
    "snd (save_image e self img category image_id gid now) = cleanup_category e self2 category"
    "dirs self2 ?cd = write_file ?fn now img (dirs self ?cd)"
    using save_image_unfold [where e = e and image_id = image_id and gid = gid and self = self
        and img = img and category = category and now = now]
    by blast
  have "distinct (map fname (dirs self2 ?cd))"
    using names unfolding s2(2) by (rule write_file_names)
  then show "mtime f \<le> mtime g"
    using f g gone unfolding s2(1) s2(2) [symmetric]
    by (intro cleanup_category_oldest_first [OF ok])
qed

lemma car_vehicle_dir: "safe_category plain_env ''car vehicle'' = ''car_vehicle''"
  by (simp add: safe_category_def plain_env_def)


lemma plain_env_ok: "\<forall>n. save_ok plain_env n" "\<forall>n. unlink_ok plain_env n"
  by (simp_all add: plain_env_def)

lemma three_puts:
  "dirs (save_all plain_env (empty_cache 2) ''car vehicle''
          [photo_of ''a'' 1, photo_of ''b'' 2, photo_of ''c'' 3]) ''car_vehicle''
     = [stored (photo_of ''b'' 2), stored (photo_of ''c'' 3)]"
  by (simp add: save_image_def car_vehicle_dir plain_env_ok empty_cache_def photo_of_def stored_def
      write_file_def cleanup_category_def get_cache_count_def glob_images_def endswith_def
      unlink_def Let_def)

lemma two_puts:
  "dirs (save_all plain_env (empty_cache 2) ''car vehicle''
          [photo_of ''a'' 1, photo_of ''b'' 2]) ''car_vehicle''
     = [stored (photo_of ''a'' 1), stored (photo_of ''b'' 2)]"
  by (simp add: save_image_def car_vehicle_dir plain_env_ok empty_cache_def photo_of_def stored_def
      write_file_def cleanup_category_def get_cache_count_def glob_images_def endswith_def
      unlink_def Let_def)

lemma save_all_max [simp]:
  "max_images_per_category (save_all e self category ps) = max_images_per_category self"
  by (induction ps arbitrary: self) simp_all

theorem save_image_eviction_witness:
  "get_cache_count plain_env
      (save_all plain_env (empty_cache 2) ''car vehicle''
         [photo_of ''a'' 1, photo_of ''b'' 2, photo_of ''c'' 3]) ''car vehicle'' = 2
   \<and> glob_images (dirs (save_all plain_env (empty_cache 2) ''car vehicle''
         [photo_of ''a'' 1, photo_of ''b'' 2, photo_of ''c'' 3])
         (safe_category plain_env ''car vehicle''))
      = map stored [photo_of ''b'' 2, photo_of ''c'' 3]
   \<and> get_cache_count plain_env
        (snd (save_image plain_env
               (save_all plain_env (empty_cache 2) ''car vehicle'' [photo_of ''a'' 1, photo_of ''b'' 2])
               (put_image (photo_of ''c'' 3)) ''car vehicle'' (Some ''c'') [] 3)) ''car vehicle'' \<le> 2
   \<and> mtime (stored (photo_of ''a'' 1)) \<le> mtime (stored (photo_of ''b'' 2))"
proof -
  let ?a = "photo_of ''a'' 1" and ?b = "photo_of ''b'' 2" and ?c = "photo_of ''c'' 3"
  let ?two = "save_all plain_env (empty_cache 2) ''car vehicle'' [?a, ?b]"
  have cap0: "0 \<le> max_images_per_category (empty_cache 2)"
    by (simp add: empty_cache_def)
  have cap2: "0 \<le> max_images_per_category ?two"
    by (simp add: empty_cache_def)
  have run: "dirs (empty_cache 2) (safe_category plain_env ''car vehicle'') = []
      \<and> sorted_wrt (<) (map put_time [?a, ?b, ?c]) \<and> distinct (map put_id [?a, ?b, ?c])
      \<and> length [?a, ?b, ?c] = nat (max_images_per_category (empty_cache 2)) + 1"
    by (simp add: empty_cache_def photo_of_def)
  note whole = save_image_eviction [OF plain_env_ok cap0, of "''car vehicle''" "[?a, ?b, ?c]" 1]
  note one = save_image_eviction [OF plain_env_ok cap2, of "''car vehicle''" "[]" 0
      "put_image ?c" "Some ''c''" "[]" 3]
  from whole run have 1: "get_cache_count plain_env
      (save_all plain_env (empty_cache 2) ''car vehicle'' [?a, ?b, ?c]) ''car vehicle'' = 2"
    and 2: "glob_images (dirs (save_all plain_env (empty_cache 2) ''car vehicle'' [?a, ?b, ?c])
         (safe_category plain_env ''car vehicle'')) = map stored [?b, ?c]"
    by (simp_all add: empty_cache_def)
  from one have 3: "get_cache_count plain_env
        (snd (save_image plain_env ?two (put_image ?c) ''car vehicle'' (Some ''c'') [] 3))
        ''car vehicle'' \<le> 2"
    by (simp add: empty_cache_def)
  have after: "dirs (snd (save_image plain_env ?two (put_image ?c) ''car vehicle'' (Some ''c'') [] 3))
      ''car_vehicle'' = [stored ?b, stored ?c]"
    using three_puts by (simp add: photo_of_def)
  have names: "distinct (map fname (dirs ?two (safe_category plain_env ''car vehicle'')))"
    by (simp only: car_vehicle_dir two_puts) (simp add: stored_def photo_of_def)
  have f: "stored ?a \<in> set (glob_images (write_file ((case Some ''c'' of None \<Rightarrow> [] | Some i \<Rightarrow> i) @ ''.jpg'')
      3 (put_image ?c) (dirs ?two (safe_category plain_env ''car vehicle''))))"
    by (simp only: car_vehicle_dir two_puts)
      (simp add: stored_def photo_of_def write_file_def glob_images_def endswith_def)
  have g: "stored ?b \<in> set (glob_images
      (dirs (snd (save_image plain_env ?two (put_image ?c) ''car vehicle'' (Some ''c'') [] 3))
         (safe_category plain_env ''car vehicle'')))"
    by (simp only: car_vehicle_dir after)
      (simp add: stored_def photo_of_def glob_images_def endswith_def)
  have gone: "stored ?a \<notin> set (glob_images
      (dirs (snd (save_image plain_env ?two (put_image ?c) ''car vehicle'' (Some ''c'') [] 3))
         (safe_category plain_env ''car vehicle'')))"
    by (simp only: car_vehicle_dir after)
      (simp add: stored_def photo_of_def glob_images_def endswith_def)
  from one names f g gone have 4: "mtime (stored ?a) \<le> mtime (stored ?b)"
    by blast
  from 1 2 3 4 show ?thesis
    by blast
qed

text \<open>
  C6 as stated fails for a cap of 2 and three saves (\<open>k = 1\<close>): the category keeps
  the two most recent images, not only the one most recent.
\<close>

theorem retained_not_k_most_recent:
  "length [photo_of ''a'' 1, photo_of ''b'' 2, photo_of ''c'' 3]
      = nat (max_images_per_category (empty_cache 2)) + 1
   \<and> set (glob_images (dirs (save_all plain_env (empty_cache 2) ''car vehicle''
         [photo_of ''a'' 1, photo_of ''b'' 2, photo_of ''c'' 3])
         (safe_category plain_env ''car vehicle'')))
      \<noteq> set (map stored (drop (3 - 1) [photo_of ''a'' 1, photo_of ''b'' 2, photo_of ''c'' 3]))"
proof -
  let ?a = "photo_of ''a'' 1" and ?b = "photo_of ''b'' 2" and ?c = "photo_of ''c'' 3"
  have "stored ?b \<noteq> stored ?c"
    by (simp add: stored_def photo_of_def)
  then have differ: "set [stored ?b, stored ?c] \<noteq> set [stored ?c]"
    by auto
  have kept: "glob_images (dirs (save_all plain_env (empty_cache 2) ''car vehicle'' [?a, ?b, ?c])
         (safe_category plain_env ''car vehicle'')) = [stored ?b, stored ?c]"
    using glob_images_stored [of "[?b, ?c]"]
    by (simp only: car_vehicle_dir three_puts list.map)
  have recent: "map stored (drop (3 - 1) [?a, ?b, ?c]) = [stored ?c]"
    by simp
  have count: "length [?a, ?b, ?c] = nat (max_images_per_category (empty_cache 2)) + 1"
    by (simp add: empty_cache_def)
  from differ count show ?thesis
    by (simp only: kept recent) simp
qed


section \<open>Image cache: sanitized category names\<close>














section \<open>Image provider: cache first, cache only\<close>

lemma get_random_image_cache_only:
  assumes "cache_only_mode self"
  shows "fst (snd (get_random_image e r self cache query sz)) = []"
  using assms
  by (simp add: get_random_image_def Let_def split: prod.splits list.splits)

lemma query_beyond_cache_only:
  assumes "cache_only_mode self"
  shows "fst (snd (query_beyond_cache e r self cache query count sz)) = []"
  using assms
  by (simp add: query_beyond_cache_def Let_def split: prod.splits)

lemma get_images_by_query_cache_only:
  assumes "cache_only_mode self"
  shows "fst (snd (get_images_by_query e r self cache query count sz)) = []"
  using assms
  by (simp add: get_images_by_query_def Let_def query_beyond_cache_only split: prod.splits)

text \<open>
  C7, as amended. With \<open>use_cache\<close> on, \<open>get_random_image\<close> reads the cache first and
  returns the first cached image when the read yields one, without a remote call. With
  \<open>cache_only_mode\<close> on it makes no remote call and returns the result of the cache
  read when \<open>use_cache\<close> is on, and nothing when \<open>use_cache\<close> is off.
\<close>

theorem get_random_image_cache_first:
  "(use_cache self
      \<and> fst (get_cached_images e cache (query_category query) 1 (Some sz)) = img # others
    \<longrightarrow> get_random_image e r self cache query sz
          = (Some img, [], snd (get_cached_images e cache (query_category query) 1 (Some sz))))
   \<and> (cache_only_mode self
    \<longrightarrow> fst (snd (get_random_image e r self cache query sz)) = []
        \<and> fst (get_random_image e r self cache query sz)
          = (if use_cache self
             then (case fst (get_cached_images e cache (query_category query) 1 (Some sz)) of
                     [] \<Rightarrow> None | hit # _ \<Rightarrow> Some hit)
             else None))"
  by (simp add: get_random_image_def Let_def split: prod.splits list.splits)

lemma car_dir: "safe_category plain_env ''car'' = ''car''"
  by (simp add: safe_category_def plain_env_def)

lemma car_saved:
  "dirs (snd (save_image plain_env (empty_cache 20) \<lparr>source = ''a'', dims = (120, 120)\<rparr>
               ''car'' (Some ''a'') [] 1)) ''car''
     = [\<lparr>fname = ''a.jpg'', mtime = 1, content = Some \<lparr>source = ''a'', dims = (120, 120)\<rparr>\<rparr>]"
  by (simp add: save_image_def car_dir plain_env_ok empty_cache_def
      write_file_def cleanup_category_def get_cache_count_def glob_images_def endswith_def Let_def)

lemma car_cached:
  "get_cached_images plain_env
      (snd (save_image plain_env (empty_cache 20) \<lparr>source = ''a'', dims = (120, 120)\<rparr>
             ''car'' (Some ''a'') [] 1)) ''car'' 1 (Some (60, 60))
     = ([\<lparr>source = ''a'', dims = (60, 60)\<rparr>],
        snd (save_image plain_env (empty_cache 20) \<lparr>source = ''a'', dims = (120, 120)\<rparr>
             ''car'' (Some ''a'') [] 1))"
  by (simp only: get_cached_images_def car_dir car_saved Let_def)
    (simp add: glob_images_def endswith_def plain_env_def)

lemma car_query: "query_category (Some ''car'') = ''car''"
  by (simp add: query_category_def query_param_def)

theorem get_random_image_cache_first_witness:
  "fst (get_cached_images plain_env
      (snd (save_image plain_env (empty_cache 20) \<lparr>source = ''a'', dims = (120, 120)\<rparr>
             ''car'' (Some ''a'') [] 1)) (query_category (Some ''car'')) 1 (Some (60, 60)))
     = [\<lparr>source = ''a'', dims = (60, 60)\<rparr>]
   \<and> fst (get_random_image plain_env unreachable
        \<lparr>api_key = Some ''key'', use_cache = True, cache_only_mode = True\<rparr>
        (snd (save_image plain_env (empty_cache 20) \<lparr>source = ''a'', dims = (120, 120)\<rparr>
               ''car'' (Some ''a'') [] 1)) (Some ''car'') (60, 60))
     = Some \<lparr>source = ''a'', dims = (60, 60)\<rparr>
   \<and> fst (snd (get_random_image plain_env unreachable
        \<lparr>api_key = Some ''key'', use_cache = True, cache_only_mode = True\<rparr>
        (snd (save_image plain_env (empty_cache 20) \<lparr>source = ''a'', dims = (120, 120)\<rparr>
               ''car'' (Some ''a'') [] 1)) (Some ''car'') (60, 60))) = []"
proof -
  let ?cache = "snd (save_image plain_env (empty_cache 20) \<lparr>source = ''a'', dims = (120, 120)\<rparr>
      ''car'' (Some ''a'') [] 1)"
  let ?self = "\<lparr>api_key = Some ''key'', use_cache = True, cache_only_mode = True\<rparr>"
  have hit: "fst (get_cached_images plain_env ?cache (query_category (Some ''car'')) 1 (Some (60, 60)))
      = \<lparr>source = ''a'', dims = (60, 60)\<rparr> # []"
    by (simp only: car_query car_cached fst_conv)
  have modes: "use_cache ?self" "cache_only_mode ?self"
    by simp_all
  note first = get_random_image_cache_first [of ?self plain_env ?cache "Some ''car''" "(60, 60)"
      "\<lparr>source = ''a'', dims = (60, 60)\<rparr>" "[]" unreachable]
  from first hit modes
  have "get_random_image plain_env unreachable ?self ?cache (Some ''car'') (60, 60)
      = (Some \<lparr>source = ''a'', dims = (60, 60)\<rparr>, [],
         snd (get_cached_images plain_env ?cache (query_category (Some ''car'')) 1 (Some (60, 60))))"
    by blast
  moreover from first modes
  have "fst (snd (get_random_image plain_env unreachable ?self ?cache (Some ''car'') (60, 60))) = []"
    by blast
  ultimately show ?thesis
    using hit by simp
qed

text \<open>
  C7 as stated fails when \<open>use_cache\<close> is off and \<open>cache_only_mode\<close> is on: the cache
  holds an image for the category, and \<open>get_random_image\<close> returns nothing.
\<close>

theorem cache_hit_not_returned:
  "fst (get_cached_images plain_env
      (snd (save_image plain_env (empty_cache 20) \<lparr>source = ''a'', dims = (120, 120)\<rparr>
             ''car'' (Some ''a'') [] 1)) (query_category (Some ''car'')) 1 (Some (60, 60)))
     = [\<lparr>source = ''a'', dims = (60, 60)\<rparr>]
   \<and> fst (get_random_image plain_env unreachable
        \<lparr>api_key = Some ''key'', use_cache = False, cache_only_mode = True\<rparr>
        (snd (save_image plain_env (empty_cache 20) \<lparr>source = ''a'', dims = (120, 120)\<rparr>
               ''car'' (Some ''a'') [] 1)) (Some ''car'') (60, 60))
     = None"
proof -
  have "fst (get_random_image plain_env unreachable
        \<lparr>api_key = Some ''key'', use_cache = False, cache_only_mode = True\<rparr>
        (snd (save_image plain_env (empty_cache 20) \<lparr>source = ''a'', dims = (120, 120)\<rparr>
               ''car'' (Some ''a'') [] 1)) (Some ''car'') (60, 60)) = None"
    by (simp add: get_random_image_def)
  then show ?thesis
    by (simp only: car_query car_cached fst_conv)
qed

text \<open>
  C8. With \<open>cache_only_mode\<close> on, neither \<open>get_random_image\<close> nor
  \<open>get_images_by_query\<close> makes a remote call, whatever \<open>use_cache\<close> is: the log of
  remote calls is empty and the result does not depend on the remote source.
\<close>

theorem cache_only_never_remote:
  assumes "cache_only_mode self"
  shows "fst (snd (get_random_image e r self cache query sz)) = []
     \<and> fst (snd (get_images_by_query e r self cache q count sz)) = []
     \<and> get_random_image e r self cache query sz = get_random_image e r' self cache query sz
     \<and> get_images_by_query e r self cache q count sz
          = get_images_by_query e r' self cache q count sz"
proof -
  have beyond: "query_beyond_cache e rem self c q count sz
      = (let (images, cache') = get_cached_images e c q count (Some sz) in (images, [], cache'))"
    for c rem
    using assms by (simp add: query_beyond_cache_def)
  have "get_images_by_query e r self cache q count sz
      = get_images_by_query e r' self cache q count sz"
    by (simp add: get_images_by_query_def beyond split: prod.splits)
  moreover have "get_random_image e r self cache query sz
      = get_random_image e r' self cache query sz"
    using assms by (simp add: get_random_image_def Let_def split: prod.splits list.splits)
  ultimately show ?thesis
    using assms by (simp add: get_random_image_cache_only get_images_by_query_cache_only)
qed

text \<open>A remote source that answers every request with one photo.\<close>

theorem cache_only_never_remote_witness:
  "fst (snd (get_random_image plain_env
        \<lparr>random_photo = (\<lambda>_. Response 200 \<lparr>photo_url = Some ''u'', photo_id = ''p'',
            photo_body = Some \<lparr>source = ''p'', dims = (400, 400)\<rparr>, saved_at = 5\<rparr>),
         search_photos = (\<lambda>_ _. Response 200 [])\<rparr>
        \<lparr>api_key = Some ''key'', use_cache = False, cache_only_mode = True\<rparr>
        (empty_cache 20) (Some ''car'') (60, 60))) = []
   \<and> fst (snd (get_images_by_query plain_env
        \<lparr>random_photo = (\<lambda>_. Response 200 \<lparr>photo_url = Some ''u'', photo_id = ''p'',
            photo_body = Some \<lparr>source = ''p'', dims = (400, 400)\<rparr>, saved_at = 5\<rparr>),
         search_photos = (\<lambda>_ _. Response 200 [])\<rparr>
        \<lparr>api_key = Some ''key'', use_cache = False, cache_only_mode = True\<rparr>
        (empty_cache 20) ''car'' 3 (60, 60))) = []
   \<and> fst (snd (get_random_image plain_env
        \<lparr>random_photo = (\<lambda>_. Response 200 \<lparr>photo_url = Some ''u'', photo_id = ''p'',
            photo_body = Some \<lparr>source = ''p'', dims = (400, 400)\<rparr>, saved_at = 5\<rparr>),
         search_photos = (\<lambda>_ _. Response 200 [])\<rparr>
        \<lparr>api_key = Some ''key'', use_cache = False, cache_only_mode = False\<rparr>
        (empty_cache 20) (Some ''car'') (60, 60))) = [GetRandom (Some ''car''), GetImage ''u'']"
proof -
  let ?r = "\<lparr>random_photo = (\<lambda>_. Response 200 \<lparr>photo_url = Some ''u'', photo_id = ''p'',
            photo_body = Some \<lparr>source = ''p'', dims = (400, 400)\<rparr>, saved_at = 5\<rparr>),
         search_photos = (\<lambda>_ _. Response 200 [])\<rparr>"
  let ?self = "\<lparr>api_key = Some ''key'', use_cache = False, cache_only_mode = True\<rparr>"
  have mode: "cache_only_mode ?self"
    by simp
  note silent = cache_only_never_remote [OF mode, of plain_env ?r "empty_cache 20" "Some ''car''"
      "(60, 60)" "''car''" 3]
  have called: "fst (snd (get_random_image plain_env ?r
        \<lparr>api_key = Some ''key'', use_cache = False, cache_only_mode = False\<rparr>
        (empty_cache 20) (Some ''car'') (60, 60))) = [GetRandom (Some ''car''), GetImage ''u'']"
    by (simp add: get_random_image_def no_api_key_def query_param_def query_category_def
        download_and_resize_def)
  from silent called show ?thesis
    by blast
qed


section \<open>Challenge responses and answer data\<close>

lemma sliding_response_keys:
  "json_keys (snd (generate_sliding_puzzle_route result s))
     = [''background'', ''piece'', ''piece_y'', ''puzzle_width'', ''puzzle_height'', ''piece_size'']"
  by (simp add: generate_sliding_puzzle_route_def)

lemma image_entries_keys:
  "set (concat (map (\<lambda>img. json_keys (JObj [(''image'', JStr (gi_image img)),
                                              (''index'', JInt (gi_index img))])) images))
     \<subseteq> {''image'', ''index''}"
  by (induction images) auto

lemma image_response_keys:
  "set (json_keys (snd (generate_image_captcha_route result s)))
     \<subseteq> {''prompt'', ''images'', ''image'', ''index'', ''required_selections''}"
proof -
  have "set (json_keys (snd (generate_image_captcha_route result s)))
      = {''prompt'', ''images'', ''required_selections''}
        \<union> set (concat (map (\<lambda>img. json_keys (JObj [(''image'', JStr (gi_image img)),
                                                       (''index'', JInt (gi_index img))]))
                          (gc_images result)))"
    by (auto simp: generate_image_captcha_route_def comp_def)
  with image_entries_keys [of "gc_images result"] show ?thesis
    by auto
qed

lemma drag_response_positions:
  "json_field (snd (generate_drag_puzzle_route result s)) ''positions''
     = Some (JList (map position_json (dr_positions result)))"
  by (simp add: generate_drag_puzzle_route_def json_field_def)

text \<open>
  C1. The claim: no generation route returns answer data; in particular the drag response
  omits the truth positions list \<open>{id, x, y}\<close>. The sliding route and the grid route
  do strip the answer (\<open>sliding_response_keys\<close>, \<open>image_response_keys\<close>), and the
  drag route strips \<open>correct_x\<close> and \<open>correct_y\<close> from the pieces, under the comment
  \<open>Prepare response without correct positions in pieces\<close>; but it then copies
  \<open>result['positions']\<close> into the response. For the cells (0,0), (1,1), (2,2) the
  response carries, under \<open>positions\<close>, the coordinates that the session stores as the
  answer, and sending that list back passes \<open>verify_drag\<close>.
\<close>

theorem drag_response_discloses_positions:
  "json_field
      (snd (generate_drag_puzzle_route
              (generate_drag_puzzle (\<lambda>_. ''bg'') (\<lambda>_ _. ''piece'') [(0, 0), (1, 1), (2, 2)] rev)
              new_session)) ''positions''
     = Some (JList (map position_json
         [\<lparr>pos_id = 0, pos_x = 20, pos_y = 20\<rparr>, \<lparr>pos_id = 1, pos_x = 120, pos_y = 120\<rparr>,
          \<lparr>pos_id = 2, pos_x = 220, pos_y = 220\<rparr>]))
   \<and> drag_puzzle_answers
        (fst (generate_drag_puzzle_route
                (generate_drag_puzzle (\<lambda>_. ''bg'') (\<lambda>_ _. ''piece'') [(0, 0), (1, 1), (2, 2)] rev)
                new_session))
     = Some [\<lparr>cor_id = 2, cor_x = 220, cor_y = 220\<rparr>, \<lparr>cor_id = 1, cor_x = 120, cor_y = 120\<rparr>,
             \<lparr>cor_id = 0, cor_x = 20, cor_y = 20\<rparr>]
   \<and> verify_drag
        [\<lparr>pos_id = 0, pos_x = 20, pos_y = 20\<rparr>, \<lparr>pos_id = 1, pos_x = 120, pos_y = 120\<rparr>,
         \<lparr>pos_id = 2, pos_x = 220, pos_y = 220\<rparr>]
        [\<lparr>cor_id = 2, cor_x = 220, cor_y = 220\<rparr>, \<lparr>cor_id = 1, cor_x = 120, cor_y = 120\<rparr>,
         \<lparr>cor_id = 0, cor_x = 20, cor_y = 20\<rparr>] 15
   \<and> ''positions'' \<in> set (json_keys
        (snd (generate_drag_puzzle_route
                (generate_drag_puzzle (\<lambda>_. ''bg'') (\<lambda>_ _. ''piece'') [(0, 0), (1, 1), (2, 2)] rev)
                new_session)))"
proof -
  have puzzle: "generate_drag_puzzle (\<lambda>_. ''bg'') (\<lambda>_ _. ''piece'') [(0, 0), (1, 1), (2, 2)] rev
      = \<lparr>dr_background = ''bg'',
         dr_pieces = [\<lparr>pc_id = 2, pc_image = ''piece'', pc_correct_x = 220, pc_correct_y = 220\<rparr>,
                      \<lparr>pc_id = 1, pc_image = ''piece'', pc_correct_x = 120, pc_correct_y = 120\<rparr>,
                      \<lparr>pc_id = 0, pc_image = ''piece'', pc_correct_x = 20, pc_correct_y = 20\<rparr>],
         dr_positions = [\<lparr>pos_id = 0, pos_x = 20, pos_y = 20\<rparr>,
                         \<lparr>pos_id = 1, pos_x = 120, pos_y = 120\<rparr>,
                         \<lparr>pos_id = 2, pos_x = 220, pos_y = 220\<rparr>],
         dr_tolerance = 15, dr_puzzle_width = 300, dr_puzzle_height = 300, dr_piece_size = 60\<rparr>"
    by (simp add: generate_drag_puzzle_def cell_origin_def puzzle_size_def piece_size_def)
  have accepted: "verify_drag
        [\<lparr>pos_id = 0, pos_x = 20, pos_y = 20\<rparr>, \<lparr>pos_id = 1, pos_x = 120, pos_y = 120\<rparr>,
         \<lparr>pos_id = 2, pos_x = 220, pos_y = 220\<rparr>]
        [\<lparr>cor_id = 2, cor_x = 220, cor_y = 220\<rparr>, \<lparr>cor_id = 1, cor_x = 120, cor_y = 120\<rparr>,
         \<lparr>cor_id = 0, cor_x = 20, cor_y = 20\<rparr>] 15"
    by (simp add: verify_drag_def correct_map_of_def)
  show ?thesis
    unfolding puzzle using accepted
    by (simp add: generate_drag_puzzle_route_def json_field_def position_json_def)
qed


end
